(* ===== verification/Prelude.thy ===== *)
theory Prelude
  imports Complex_Main "HOL-Library.Multiset"
begin

text \<open>
  Shared vocabulary of the attendance development. Python exceptions that can reach
  the GUI handlers are values of \<open>py_error\<close>; a computation that may raise has type
  \<open>'a py = py_error + 'a\<close>, \<open>Inl\<close> being the exception. The combinators below thread
  such results the way Python propagates an exception out of a loop: the first raise
  ends the loop. The theory also names the model's basic types (an embedding is a list
  of reals, an identity the pair (name, roll) of strings) and holds the list lemmas the
  component theories share.
\<close>

named_theorems py_simps "evaluation rules of the Python library model"

datatype py_error = ValueError | IndexError | AttributeError

type_synonym 'a py = "py_error + 'a"

type_synonym embedding = "real list"

type_synonym identity = "string \<times> string"

subsection \<open>Sequencing results that may raise\<close>

text \<open>\<open>map_py f xs\<close>: \<open>[f(x) for x in xs]\<close> where \<open>f\<close> may raise; the first raise wins.\<close>

fun map_py :: "('a \<Rightarrow> 'b py) \<Rightarrow> 'a list \<Rightarrow> 'b list py" where
  "map_py f [] = Inr []"
| "map_py f (x # xs) =
     (case f x of Inl e \<Rightarrow> Inl e
      | Inr y \<Rightarrow> (case map_py f xs of Inl e \<Rightarrow> Inl e | Inr ys \<Rightarrow> Inr (y # ys)))"

subsection \<open>Python list indexing and search\<close>

text \<open>Subscription \<open>xs[i]\<close>: an index in \<open>[-len(xs), len(xs))\<close> is taken modulo
  the length (so \<open>-1\<close> is the last element); any other index raises IndexError.\<close>

definition py_get :: "'a list \<Rightarrow> int \<Rightarrow> 'a py" where
  "py_get xs i =
     (if - int (length xs) \<le> i \<and> i < int (length xs)
      then Inr (xs ! nat (i mod int (length xs))) else Inl IndexError)"

text \<open>Index of the first element satisfying a predicate (Python's
  \<open>next(i for i, x in enumerate(xs) if p(x))\<close>).\<close>

fun first_index :: "('a \<Rightarrow> bool) \<Rightarrow> 'a list \<Rightarrow> nat option" where
  "first_index p [] = None"
| "first_index p (x # xs) = (if p x then Some 0 else map_option Suc (first_index p xs))"

subsection \<open>Properties\<close>

lemma map_py_all_Inr:
  "\<forall>x\<in>set xs. \<exists>y. f x = Inr y \<Longrightarrow> map_py f xs = Inr (map (\<lambda>x. projr (f x)) xs)"
  by (induction xs) auto

lemma map_py_InrD:
  "map_py f xs = Inr ys \<Longrightarrow> (\<forall>x\<in>set xs. \<exists>y. f x = Inr y) \<and> ys = map (\<lambda>x. projr (f x)) xs"
  by (induction xs arbitrary: ys) (auto split: sum.splits)

lemma map_py_Inr_iff:
  "map_py f xs = Inr ys \<longleftrightarrow> (\<forall>x\<in>set xs. \<exists>y. f x = Inr y) \<and> ys = map (\<lambda>x. projr (f x)) xs"
  using map_py_InrD map_py_all_Inr by metis

lemma map_py_Inl_iff: "(\<exists>e. map_py f xs = Inl e) \<longleftrightarrow> (\<exists>x\<in>set xs. \<exists>e. f x = Inl e)"
proof (induction xs)
  case Nil
  then show ?case by simp
next
  case (Cons x xs)
  then show ?case
    by (cases "f x"; cases "map_py f xs") auto
qed

lemma map_py_length: "map_py f xs = Inr ys \<Longrightarrow> length ys = length xs"
  by (simp add: map_py_Inr_iff)

lemma map_py_map: "map_py (\<lambda>x. Inr (g x)) xs = Inr (map g xs)"
  by (simp add: map_py_Inr_iff)

lemma py_get_nat [simp]: "i < length xs \<Longrightarrow> py_get xs (int i) = Inr (xs ! i)"
  by (simp add: py_get_def)

lemma first_index_Some:
  "first_index p xs = Some i \<longleftrightarrow> i < length xs \<and> p (xs ! i) \<and> (\<forall>j<i. \<not> p (xs ! j))"
proof (induction xs arbitrary: i)
  case Nil
  then show ?case by simp
next
  case (Cons x xs)
  show ?case
  proof (cases i)
    case 0
    then show ?thesis by auto
  next
    case (Suc k)
    have "(\<forall>j<Suc k. \<not> p ((x # xs) ! j)) \<longleftrightarrow> \<not> p x \<and> (\<forall>j<k. \<not> p (xs ! j))"
      by (auto simp: less_Suc_eq_0_disj)
    with Suc Cons.IH[of k] show ?thesis by auto
  qed
qed

lemma first_index_None: "first_index p xs = None \<longleftrightarrow> (\<forall>x\<in>set xs. \<not> p x)"
  by (induction xs) auto

text \<open>Python's \<open>set.add\<close> on a set kept in insertion order: \<open>List.insert\<close>.\<close>

lemma distinct_fold_insert: "distinct acc \<Longrightarrow> distinct (fold List.insert xs acc)"
  by (induction xs arbitrary: acc) auto

lemma set_fold_insert [simp]: "set (fold List.insert xs acc) = set xs \<union> set acc"
  by (induction xs arbitrary: acc) auto

lemma sum_not_Inl: "(\<forall>e. s \<noteq> Inl e) \<Longrightarrow> s = Inr (projr s)"
  by (cases s) auto


subsection \<open>Stable sorting and reversal\<close>

lemma distinct_rev_eq_short:
  assumes "distinct xs" and "rev xs = xs"
  shows "length xs \<le> 1"
proof (rule ccontr)
  assume "\<not> length xs \<le> 1"
  then obtain a b ys where xs: "xs = a # b # ys" by (cases xs rule: remdups_adj.cases) auto
  then have "last xs \<in> set (b # ys)" by (cases ys rule: rev_cases) auto
  moreover have "hd (rev xs) = last xs" using xs by (simp add: hd_rev)
  ultimately show False using assms xs by auto
qed

text \<open>A stable sort of a duplicate-free list and of its reverse differ as soon as two
  elements share a key: the sort keeps their order from the input.\<close>

lemma sort_key_rev_neq:
  assumes "distinct xs" "x \<in> set xs" "y \<in> set xs" "x \<noteq> y" "f x = f y"
  shows "sort_key f (rev xs) \<noteq> sort_key f xs"
proof
  let ?P = "\<lambda>z. f z = f x"
  assume eq: "sort_key f (rev xs) = sort_key f xs"
  have "rev (filter ?P xs) = filter ?P xs"
    using arg_cong [OF eq, of "filter ?P"] by (simp only: sort_key_stable rev_filter)
  moreover have "distinct (filter ?P xs)" using assms(1) by simp
  ultimately have "length (filter ?P xs) \<le> 1" by (intro distinct_rev_eq_short)
  moreover have "{x, y} \<subseteq> set (filter ?P xs)" using assms(2-5) by auto
  then have "card {x, y} \<le> length (filter ?P xs)"
    by (metis card_length card_mono List.finite_set order_trans)
  ultimately show False using assms(4) by simp
qed

end
