(* ===== verification/PyBuiltins.thy ===== *)
theory PyBuiltins
  imports Prelude
begin

text \<open>
  The Python library functions that \<open>main.py\<close> applies to file names, roll numbers and
  dates, modelled from their CPython semantics (they are not code of the repository):
  \<open>str.split\<close> with a one-character separator, \<open>os.path.splitext\<close> (posixpath),
  \<open>str.endswith\<close> with a tuple, \<open>int()\<close> on a string, \<open>str()\<close> on a natural number,
  zero padding as \<open>strftime\<close> does it, and \<open>sorted(xs, key=k)\<close> with a key that may
  raise. Strings are byte strings (\<open>char list\<close>); whitespace and digits are the ASCII
  ones (Python also accepts non-ASCII digits and spaces in \<open>int()\<close>, which no
  file name of this program needs).
\<close>

subsection \<open>Characters\<close>

definition py_isdigit :: "char \<Rightarrow> bool" where
  "py_isdigit c \<longleftrightarrow> (let n = (of_char c :: nat) in 48 \<le> n \<and> n \<le> 57)"

definition digit_val :: "char \<Rightarrow> nat" where
  "digit_val c = (of_char c :: nat) - 48"

text \<open>\<open>str.isspace\<close> on ASCII: \<open>\t \n \v \f \r\<close>, the separators 0x1c--0x1f, and space.\<close>

definition py_isspace :: "char \<Rightarrow> bool" where
  "py_isspace c \<longleftrightarrow>
     (let n = (of_char c :: nat) in (9 \<le> n \<and> n \<le> 13) \<or> (28 \<le> n \<and> n \<le> 32))"

definition py_strip :: "string \<Rightarrow> string" where
  "py_strip s = rev (dropWhile py_isspace (rev (dropWhile py_isspace s)))"

subsection \<open>\<open>str.split(sep)\<close>\<close>

fun split_on :: "char \<Rightarrow> string \<Rightarrow> string list" where
  "split_on c [] = [[]]"
| "split_on c (x # xs) =
     (let r = split_on c xs in if x = c then [] # r else (x # hd r) # tl r)"

text \<open>\<open>sep.join(parts)\<close> for a one-character separator.\<close>

fun join_on :: "char \<Rightarrow> string list \<Rightarrow> string" where
  "join_on c [] = []"
| "join_on c [w] = w"
| "join_on c (w # v # ws) = w @ c # join_on c (v # ws)"

subsection \<open>\<open>str.rfind\<close>, \<open>os.path.splitext\<close>, \<open>str.endswith\<close>\<close>

fun rfind :: "char \<Rightarrow> string \<Rightarrow> nat option" where
  "rfind c [] = None"
| "rfind c (x # xs) =
     (case rfind c xs of Some i \<Rightarrow> Some (Suc i) | None \<Rightarrow> if x = c then Some 0 else None)"

text \<open>posixpath.\<open>_splitext\<close>: the extension starts at the last dot, provided that dot
  lies after the last slash and is not part of the leading dots of the base name.\<close>

definition splitext :: "string \<Rightarrow> string \<times> string" where
  "splitext p =
     (case rfind CHR ''.'' p of
        None \<Rightarrow> (p, [])
      | Some d \<Rightarrow>
          (let s = (case rfind CHR ''/'' p of None \<Rightarrow> 0 | Some i \<Rightarrow> Suc i)
           in if s \<le> d \<and> list_ex (\<lambda>c. c \<noteq> CHR ''.'') (take (d - s) (drop s p))
              then (take d p, drop d p) else (p, [])))"

definition py_endswith :: "string \<Rightarrow> string list \<Rightarrow> bool" where
  "py_endswith s sufs \<longleftrightarrow>
     list_ex (\<lambda>t. length t \<le> length s \<and> drop (length s - length t) s = t) sufs"

subsection \<open>\<open>int(s)\<close> for a string \<open>s\<close>, base 10\<close>

text \<open>After stripping whitespace: an optional sign, then digits in groups separated by
  single underscores. Anything else raises ValueError (\<open>None\<close> here).\<close>

fun digit_groups :: "string \<Rightarrow> bool" where
  "digit_groups [] = False"
| "digit_groups [c] = py_isdigit c"
| "digit_groups (c # d # r) =
     (py_isdigit c \<and> (if d = CHR ''_'' then digit_groups r else digit_groups (d # r)))"

definition dec_value :: "string \<Rightarrow> nat" where
  "dec_value ds = foldl (\<lambda>n c. 10 * n + digit_val c) 0 (filter (\<lambda>c. c \<noteq> CHR ''_'') ds)"

definition unsigned_int :: "string \<Rightarrow> int option" where
  "unsigned_int ds = (if digit_groups ds then Some (int (dec_value ds)) else None)"

definition py_int :: "string \<Rightarrow> int option" where
  "py_int s =
     (case py_strip s of
        [] \<Rightarrow> None
      | c # r \<Rightarrow>
          if c = CHR ''-'' then map_option uminus (unsigned_int r)
          else if c = CHR ''+'' then unsigned_int r
          else unsigned_int (c # r))"

text \<open>The same conversion as a computation that raises, as \<open>int(...)\<close> does.\<close>

definition py_int_raise :: "string \<Rightarrow> int py" where
  "py_int_raise s = (case py_int s of None \<Rightarrow> Inl ValueError | Some n \<Rightarrow> Inr n)"

subsection \<open>\<open>str(n)\<close> and zero padding\<close>

fun nat_str :: "nat \<Rightarrow> string" where
  "nat_str n =
     (if n < 10 then [char_of (48 + n)] else nat_str (n div 10) @ [char_of (48 + n mod 10)])"

declare nat_str.simps [simp del]

text \<open>\<open>'%02d'\<close>-style padding to width \<open>k\<close>.\<close>

definition zfill :: "nat \<Rightarrow> string \<Rightarrow> string" where
  "zfill k s = replicate (k - length s) CHR ''0'' @ s"

subsection \<open>\<open>sorted(xs, key=k)\<close>\<close>

text \<open>CPython computes every key first, in list order (the first key that raises ends the
  call), then sorts stably by the keys. \<open>sort_key\<close> is a stable sort.\<close>

definition py_sorted_key :: "('a \<Rightarrow> 'k::linorder py) \<Rightarrow> 'a list \<Rightarrow> 'a list py" where
  "py_sorted_key key xs =
     (case map_py key xs of
        Inl e \<Rightarrow> Inl e
      | Inr ks \<Rightarrow> Inr (map fst (sort_key snd (zip xs ks))))"

subsection \<open>Properties of the string functions\<close>

lemma split_on_nonempty [simp]: "split_on c s \<noteq> []"
  by (induction s) (auto simp: Let_def)

lemma split_on_no_sep [py_simps]: "c \<notin> set s \<Longrightarrow> split_on c s = [s]"
  by (induction s) (auto simp: Let_def)

lemma split_on_append_sep [py_simps]:
  "c \<notin> set a \<Longrightarrow> split_on c (a @ c # b) = a # split_on c b"
  by (induction a) (auto simp: Let_def)

lemma split_on_parts_sep_free: "w \<in> set (split_on c s) \<Longrightarrow> c \<notin> set w"
proof (induction s arbitrary: w)
  case Nil
  then show ?case by simp
next
  case (Cons x xs)
  obtain r rs where r: "split_on c xs = r # rs"
    using split_on_nonempty by (cases "split_on c xs") auto
  with Cons show ?case by (auto simp: Let_def split: if_splits)
qed

text \<open>Joining the parts of a split gives the string back.\<close>

lemma split_on_join: "join_on c (split_on c s) = s"
proof (induction s)
  case Nil
  then show ?case by simp
next
  case (Cons x xs)
  obtain r rs where r: "split_on c xs = r # rs"
    using split_on_nonempty by (cases "split_on c xs") auto
  with Cons show ?case by (cases rs) (auto simp: Let_def)
qed

lemma rfind_None: "rfind c s = None \<longleftrightarrow> c \<notin> set s"
  by (induction s) (auto split: option.splits)

lemma rfind_append:
  "rfind c (a @ b) = (case rfind c b of Some i \<Rightarrow> Some (length a + i) | None \<Rightarrow> rfind c a)"
  by (induction a) (auto split: option.splits)

text \<open>A base name with a non-dot character, a dot and a dot-free extension splits at
  that dot.\<close>

lemma splitext_ext [py_simps]:
  assumes "CHR ''/'' \<notin> set stem" "list_ex (\<lambda>c. c \<noteq> CHR ''.'') stem"
    and "CHR ''.'' \<notin> set ext" "CHR ''/'' \<notin> set ext"
  shows "splitext (stem @ CHR ''.'' # ext) = (stem, CHR ''.'' # ext)"
proof -
  have dot: "rfind CHR ''.'' (stem @ CHR ''.'' # ext) = Some (length stem)"
    using assms(3) by (simp add: rfind_append rfind_None [THEN iffD2])
  have "rfind CHR ''/'' (stem @ CHR ''.'' # ext) = None"
    using assms(1,4) by (simp add: rfind_None)
  with dot assms(2) show ?thesis by (simp add: splitext_def)
qed

lemma splitext_no_dot [py_simps]: "CHR ''.'' \<notin> set p \<Longrightarrow> splitext p = (p, [])"
  by (simp add: splitext_def rfind_None [THEN iffD2])

lemma py_endswith_append [py_simps]: "t \<in> set sufs \<Longrightarrow> py_endswith (s @ t) sufs"
  by (auto simp: py_endswith_def list_ex_iff intro!: bexI [of _ t])

subsection \<open>\<open>int(str(n)) = n\<close>\<close>

lemma digit_char [simp]: "(d::nat) < 10 \<Longrightarrow> py_isdigit (char_of (48 + d))"
  by (simp add: py_isdigit_def)
lemma digit_val_char [simp]: "(d::nat) < 10 \<Longrightarrow> digit_val (char_of (48 + d)) = d"
  by (simp add: digit_val_def)
lemma digit_not_special:
  "py_isdigit c \<Longrightarrow> \<not> py_isspace c \<and> c \<noteq> CHR ''_'' \<and> c \<noteq> CHR ''-'' \<and> c \<noteq> CHR ''+''"
  by (auto simp: py_isdigit_def py_isspace_def Let_def)

lemma nat_str_digits: "c \<in> set (nat_str n) \<Longrightarrow> py_isdigit c"
proof (induction n rule: nat_str.induct)
  case (1 n)
  then show ?case by (subst (asm) nat_str.simps) (auto split: if_splits)
qed

lemma nat_str_nonempty [simp]: "nat_str n \<noteq> []"
  by (subst nat_str.simps) simp

lemma digit_groups_digits: "s \<noteq> [] \<Longrightarrow> \<forall>c\<in>set s. py_isdigit c \<Longrightarrow> digit_groups s"
  by (induction s rule: digit_groups.induct) (auto dest: digit_not_special)

lemma py_strip_id: "\<forall>c\<in>set s. \<not> py_isspace c \<Longrightarrow> py_strip s = s"
proof -
  assume "\<forall>c\<in>set s. \<not> py_isspace c"
  then have "dropWhile py_isspace s = s" and "dropWhile py_isspace (rev s) = rev s"
    by (auto simp: dropWhile_eq_self_iff hd_rev intro: last_in_set)
  then show ?thesis by (simp add: py_strip_def)
qed

lemma dec_value_snoc:
  "py_isdigit c \<Longrightarrow> dec_value (s @ [c]) = 10 * dec_value s + digit_val c"
  by (simp add: dec_value_def digit_not_special)

lemma dec_value_nat_str: "dec_value (nat_str n) = n"
proof (induction n rule: nat_str.induct)
  case (1 n)
  show ?case
  proof (cases "n < 10")
    case True
    then show ?thesis by (subst nat_str.simps) (simp add: dec_value_def digit_not_special)
  next
    case False
    then have "nat_str n = nat_str (n div 10) @ [char_of (48 + n mod 10)]"
      by (subst nat_str.simps) simp
    with False "1.IH" show ?thesis by (simp add: dec_value_snoc)
  qed
qed

lemma dec_value_zeros: "dec_value (replicate k CHR ''0'' @ s) = dec_value s"
  by (induction k) (simp_all add: dec_value_def digit_val_def)

lemma py_int_digits:
  assumes "s \<noteq> []" "\<forall>c\<in>set s. py_isdigit c"
  shows "py_int s = Some (int (dec_value s))"
proof -
  have strip: "py_strip s = s"
    using assms(2) by (auto intro: py_strip_id dest: digit_not_special)
  obtain c r where cr: "s = c # r"
    using assms(1) by (cases s) auto
  have "py_isdigit c" using assms(2) cr by simp
  then have "c \<noteq> CHR ''-''" "c \<noteq> CHR ''+''" by (auto dest: digit_not_special)
  moreover have "digit_groups s"
    using assms by (rule digit_groups_digits)
  ultimately show ?thesis
    using strip cr by (simp add: py_int_def unsigned_int_def)
qed

theorem py_int_nat_str [py_simps]: "py_int (nat_str n) = Some (int n)"
  using py_int_digits [of "nat_str n"] nat_str_digits dec_value_nat_str by simp

lemma py_int_zfill_nat_str [py_simps]: "py_int (zfill k (nat_str n)) = Some (int n)"
proof -
  have "\<forall>c\<in>set (zfill k (nat_str n)). py_isdigit c"
    using nat_str_digits by (auto simp: zfill_def py_isdigit_def)
  then show ?thesis
    using py_int_digits [of "zfill k (nat_str n)"]
    by (simp add: zfill_def dec_value_zeros dec_value_nat_str)
qed

subsection \<open>\<open>sorted\<close> with a key\<close>

lemma insort_key_pairs:
  "insort_key snd (x, k x) (map (\<lambda>x. (x, k x)) ys) = map (\<lambda>x. (x, k x)) (insort_key k x ys)"
  by (induction ys) auto

lemma sort_key_pairs:
  "sort_key snd (map (\<lambda>x. (x, k x)) xs) = map (\<lambda>x. (x, k x)) (sort_key k xs)"
  by (induction xs) (simp_all add: insort_key_pairs)

lemma py_sorted_key_ok:
  assumes "\<forall>x\<in>set xs. key x = Inr (k x)"
  shows "py_sorted_key key xs = Inr (sort_key k xs)"
proof -
  have "map_py key xs = Inr (map k xs)"
    using assms by (simp add: map_py_Inr_iff)
  moreover have "zip xs (map k xs) = map (\<lambda>x. (x, k x)) xs"
    by (induction xs) auto
  ultimately show ?thesis
    by (simp add: py_sorted_key_def sort_key_pairs comp_def)
qed

lemma py_sorted_key_raises:
  "(\<exists>e. py_sorted_key key xs = Inl e) \<longleftrightarrow> (\<exists>x\<in>set xs. \<exists>e. key x = Inl e)"
  using map_py_Inl_iff [of key xs] by (auto simp: py_sorted_key_def split: sum.splits)

lemma py_sorted_key_Inr:
  assumes "py_sorted_key key xs = Inr ys"
  shows "\<forall>x\<in>set xs. key x = Inr (projr (key x))" and "ys = sort_key (\<lambda>x. projr (key x)) xs"
proof -
  show keys: "\<forall>x\<in>set xs. key x = Inr (projr (key x))"
    using assms py_sorted_key_raises [of key xs] by (auto intro: sum_not_Inl)
  show "ys = sort_key (\<lambda>x. projr (key x)) xs"
    using py_sorted_key_ok [OF keys] assms by simp
qed

end
