(* ===== verification/Roster.thy ===== *)
theory Roster
  imports PyBuiltins "HOL-Library.AList"
begin

text \<open>
  The roster store of \<open>main.py\<close>: the directory \<open>known_faces\<close> and the function
  \<open>load_known_faces\<close> (lines 23--35) that rebuilds the roster from it at the start of
  every attendance run, and the part of \<open>add_face\<close> (lines 113--117) that writes an
  enrolled image into it.

  The directory is its \<open>os.listdir\<close> listing: a list of (file name, file contents)
  pairs in the order the file system returns them. Decoding a file with \<open>cv2.imread\<close>
  is a parameter \<open>imread\<close>, \<open>None\<close> for a file OpenCV cannot decode; encoding an
  image to a \<open>.jpg\<close> file with \<open>cv2.imwrite\<close> is a parameter \<open>jpeg_encode\<close>. JPEG is
  lossy, so nothing relates \<open>imread (jpeg_encode img)\<close> to \<open>img\<close>. The face model
  (insightface \<open>model.get\<close>) is a parameter \<open>detect\<close> from a decoded image to the
  embeddings of the faces found in it, in detection order. The loaded roster is the
  pair of parallel lists \<open>(known_embeddings, student_details)\<close> of the source.
\<close>

type_synonym 'file known_dir = "(string \<times> 'file) list"

type_synonym roster = "embedding list \<times> identity list"

definition image_exts :: "string list" where
  "image_exts = [''.jpg'', ''.png'']"

subsection \<open>File names\<close>

text \<open>The sort key of line 26: \<open>int(os.path.splitext(x)[0].split('_')[1])\<close>.\<close>

definition roster_sort_key :: "string \<Rightarrow> int py" where
  "roster_sort_key x =
     (case py_get (split_on CHR ''_'' (fst (splitext x))) 1 of
        Inl e \<Rightarrow> Inl e
      | Inr r \<Rightarrow> py_int_raise r)"

text \<open>Line 33: \<open>name, roll = os.path.splitext(filename)[0].split('_')\<close>; unpacking
  anything but exactly two parts raises ValueError.\<close>

definition unpack_name_roll :: "string \<Rightarrow> identity py" where
  "unpack_name_roll filename =
     (case split_on CHR ''_'' (fst (splitext filename)) of
        [name, roll] \<Rightarrow> Inr (name, roll)
      | _ \<Rightarrow> Inl ValueError)"

subsection \<open>\<open>load_known_faces\<close>\<close>

text \<open>Lines 29--30: \<open>img = cv2.imread(path)\<close>, \<open>faces = model.get(img)\<close>. On a file
  OpenCV cannot decode, \<open>imread\<close> returns \<open>None\<close> and the face model raises
  AttributeError when it reads \<open>img.shape\<close>.\<close>

definition file_faces :: "('file \<Rightarrow> 'img option) \<Rightarrow> ('img \<Rightarrow> embedding list) \<Rightarrow> 'file \<Rightarrow> embedding list py" where
  "file_faces imread detect c =
     (case imread c of None \<Rightarrow> Inl AttributeError | Some img \<Rightarrow> Inr (detect img))"

text \<open>The loop of lines 26--34 over the sorted listing, accumulating the two lists.\<close>

fun load_loop ::
  "('file \<Rightarrow> 'img option) \<Rightarrow> ('img \<Rightarrow> embedding list) \<Rightarrow> 'file known_dir \<Rightarrow> roster \<Rightarrow> roster py" where
  "load_loop imread detect [] acc = Inr acc"
| "load_loop imread detect ((filename, c) # fs) (embs, dets) =
     (if py_endswith filename image_exts then
        (case file_faces imread detect c of
           Inl e \<Rightarrow> Inl e
         | Inr [] \<Rightarrow> load_loop imread detect fs (embs, dets)
         | Inr (face # _) \<Rightarrow>
             (case unpack_name_roll filename of
                Inl e \<Rightarrow> Inl e
              | Inr nr \<Rightarrow> load_loop imread detect fs (embs @ [face], dets @ [nr])))
      else load_loop imread detect fs (embs, dets))"

definition load_known_faces ::
  "('file \<Rightarrow> 'img option) \<Rightarrow> ('img \<Rightarrow> embedding list) \<Rightarrow> 'file known_dir \<Rightarrow> roster py" where
  "load_known_faces imread detect dir =
     (case py_sorted_key (\<lambda>entry. roster_sort_key (fst entry)) dir of
        Inl e \<Rightarrow> Inl e
      | Inr sorted_dir \<Rightarrow> load_loop imread detect sorted_dir ([], []))"

text \<open>Reference formulation of the loop when every image file decodes: the entries
  that are images with at least one detected face, in listing order, and the first face
  of each.\<close>

definition enrolled_entries ::
  "('file \<Rightarrow> 'img option) \<Rightarrow> ('img \<Rightarrow> embedding list) \<Rightarrow> 'file known_dir \<Rightarrow> 'file known_dir" where
  "enrolled_entries imread detect fs =
     filter (\<lambda>(f, c). py_endswith f image_exts
       \<and> (case imread c of None \<Rightarrow> False | Some img \<Rightarrow> detect img \<noteq> [])) fs"

definition entry_face ::
  "('file \<Rightarrow> 'img option) \<Rightarrow> ('img \<Rightarrow> embedding list) \<Rightarrow> string \<times> 'file \<Rightarrow> embedding" where
  "entry_face imread detect e = (case imread (snd e) of None \<Rightarrow> [] | Some img \<Rightarrow> hd (detect img))"

subsection \<open>Enrollment: the file written by \<open>add_face\<close>\<close>

text \<open>Line 114: \<open>filename = f"{name}_{roll}.jpg"\<close>.\<close>

definition enroll_filename :: "string \<Rightarrow> string \<Rightarrow> string" where
  "enroll_filename name roll = name @ CHR ''_'' # roll @ ''.jpg''"

text \<open>Line 117: \<open>cv2.imwrite(save_path, img_cv)\<close> with the path of line 115. The file
  holds the JPEG encoding of the image. An existing file of that name is overwritten in
  place; a new one joins the listing. A file name with a slash leaves \<open>known_faces\<close>
  (a subdirectory or, for an absolute name, another directory), so the listing is
  unchanged.\<close>

definition save_known_face ::
  "('img \<Rightarrow> 'file) \<Rightarrow> 'file known_dir \<Rightarrow> string \<Rightarrow> 'img \<Rightarrow> 'file known_dir" where
  "save_known_face jpeg_encode dir filename img =
     (if CHR ''/'' \<in> set filename then dir else AList.update filename (jpeg_encode img) dir)"

subsection \<open>Well-formed rosters\<close>

text \<open>The numeric roll of an identity, as \<open>int(roll)\<close> reads it (0 where it would
  raise; the invariant below excludes that case).\<close>

definition roll_int :: "identity \<Rightarrow> int" where
  "roll_int d = (case py_int (snd d) of Some k \<Rightarrow> k | None \<Rightarrow> 0)"

text \<open>A name and roll that \<open>load_known_faces\<close> can read back from the file name.\<close>

definition enroll_ok :: "string \<Rightarrow> string \<Rightarrow> bool" where
  "enroll_ok name roll \<longleftrightarrow>
     CHR ''_'' \<notin> set name \<and> CHR ''_'' \<notin> set roll \<and> py_int roll \<noteq> None"

definition roster_wf :: "roster \<Rightarrow> bool" where
  "roster_wf R \<longleftrightarrow>
     length (fst R) = length (snd R)
     \<and> list_all (\<lambda>(n, r). CHR ''_'' \<notin> set n \<and> CHR ''_'' \<notin> set r \<and> py_int r \<noteq> None) (snd R)
     \<and> sorted (map roll_int (snd R))"

subsection \<open>The load loop against its reference formulation\<close>

lemma load_loop_readable:
  "load_loop imread detect fs acc = Inr r \<Longrightarrow>
   \<forall>e\<in>set fs. py_endswith (fst e) image_exts \<longrightarrow> imread (snd e) \<noteq> None"
proof (induction fs arbitrary: acc)
  case Nil
  then show ?case by simp
next
  case (Cons entry fs)
  obtain f c where entry: "entry = (f, c)" by (cases entry)
  obtain embs dets where acc: "acc = (embs, dets)" by (cases acc)
  from Cons.prems have "(py_endswith f image_exts \<longrightarrow> imread c \<noteq> None)
      \<and> (\<exists>acc'. load_loop imread detect fs acc' = Inr r)"
    unfolding entry acc
    by (auto simp: file_faces_def split: if_splits option.splits list.splits sum.splits)
  then show ?case using Cons.IH entry by auto
qed

lemma enrolled_entries_Cons:
  "enrolled_entries imread detect ((f, c) # fs) =
     (if py_endswith f image_exts \<and> (case imread c of None \<Rightarrow> False | Some img \<Rightarrow> detect img \<noteq> [])
      then (f, c) # enrolled_entries imread detect fs else enrolled_entries imread detect fs)"
  by (simp add: enrolled_entries_def)

lemma load_loop_eq:
  assumes "\<forall>e\<in>set fs. py_endswith (fst e) image_exts \<longrightarrow> imread (snd e) \<noteq> None"
  shows "load_loop imread detect fs (E, D) =
     (case map_py (\<lambda>e. unpack_name_roll (fst e)) (enrolled_entries imread detect fs) of
        Inl e \<Rightarrow> Inl e
      | Inr ds \<Rightarrow> Inr (E @ map (entry_face imread detect) (enrolled_entries imread detect fs), D @ ds))"
  using assms
proof (induction fs arbitrary: E D)
  case Nil
  then show ?case by (simp add: enrolled_entries_def)
next
  case (Cons entry fs)
  obtain f c where entry: "entry = (f, c)" by (cases entry)
  have IH: "load_loop imread detect fs (E', D') =
     (case map_py (\<lambda>e. unpack_name_roll (fst e)) (enrolled_entries imread detect fs) of
        Inl e \<Rightarrow> Inl e
      | Inr ds \<Rightarrow> Inr (E' @ map (entry_face imread detect) (enrolled_entries imread detect fs), D' @ ds))"
    for E' D' using Cons by simp
  show ?case
  proof (cases "py_endswith f image_exts")
    case False
    then show ?thesis unfolding entry by (simp add: IH enrolled_entries_Cons cong: sum.case_cong)
  next
    case True
    then obtain img where img: "imread c = Some img" using Cons.prems entry by auto
    show ?thesis
    proof (cases "detect img")
      case Nil
      with True img show ?thesis unfolding entry
        by (simp add: IH enrolled_entries_Cons file_faces_def cong: sum.case_cong)
    next
      case (Cons face faces)
      with True img show ?thesis unfolding entry
        by (simp add: IH enrolled_entries_Cons file_faces_def entry_face_def split: sum.splits)
    qed
  qed
qed

lemma load_known_faces_eq:
  assumes "\<forall>e\<in>set dir. py_endswith (fst e) image_exts \<longrightarrow> imread (snd e) \<noteq> None"
  shows "load_known_faces imread detect dir =
     (case py_sorted_key (\<lambda>e. roster_sort_key (fst e)) dir of
        Inl e \<Rightarrow> Inl e
      | Inr sd \<Rightarrow>
          (case map_py (\<lambda>e. unpack_name_roll (fst e)) (enrolled_entries imread detect sd) of
             Inl e \<Rightarrow> Inl e
           | Inr ds \<Rightarrow> Inr (map (entry_face imread detect) (enrolled_entries imread detect sd), ds)))"
proof (cases "py_sorted_key (\<lambda>e. roster_sort_key (fst e)) dir")
  case (Inl e)
  then show ?thesis by (simp add: load_known_faces_def)
next
  case (Inr sd)
  have "set sd = set dir"
    using py_sorted_key_Inr(2) [OF Inr] by simp
  with assms have "\<forall>e\<in>set sd. py_endswith (fst e) image_exts \<longrightarrow> imread (snd e) \<noteq> None"
    by simp
  from load_loop_eq [OF this] Inr show ?thesis
    by (simp add: load_known_faces_def split: sum.splits)
qed

lemma length_split_on: "length (split_on c s) = Suc (count_list s c)"
  by (induction s) (auto simp: Let_def)

lemma unpack_name_roll_Inr:
  assumes "unpack_name_roll f = Inr (n, r)"
  shows "split_on CHR ''_'' (fst (splitext f)) = [n, r]"
    and "CHR ''_'' \<notin> set n" and "CHR ''_'' \<notin> set r"
    and "roster_sort_key f = py_int_raise r"
proof -
  show sp: "split_on CHR ''_'' (fst (splitext f)) = [n, r]"
    using assms by (auto simp: unpack_name_roll_def split: list.splits)
  show "CHR ''_'' \<notin> set n" "CHR ''_'' \<notin> set r"
    using split_on_parts_sep_free [of _ "CHR ''_''" "fst (splitext f)"] sp by auto
  show "roster_sort_key f = py_int_raise r"
    using sp by (simp add: roster_sort_key_def py_get_def)
qed

subsection \<open>Invariant of the loaded roster\<close>

lemma load_known_faces_Inr:
  assumes "load_known_faces imread detect dir = Inr R"
  obtains k where "\<forall>e\<in>set dir. roster_sort_key (fst e) = Inr (k e)"
    and "\<forall>e\<in>set dir. py_endswith (fst e) image_exts \<longrightarrow> imread (snd e) \<noteq> None"
    and "\<forall>e\<in>set (enrolled_entries imread detect (sort_key k dir)).
           unpack_name_roll (fst e) = Inr (projr (unpack_name_roll (fst e)))"
    and "R = (map (entry_face imread detect) (enrolled_entries imread detect (sort_key k dir)),
              map (\<lambda>e. projr (unpack_name_roll (fst e))) (enrolled_entries imread detect (sort_key k dir)))"
proof -
  obtain sd where sd: "py_sorted_key (\<lambda>e. roster_sort_key (fst e)) dir = Inr sd"
    and loop: "load_loop imread detect sd ([], []) = Inr R"
    using assms by (auto simp: load_known_faces_def split: sum.splits)
  note keys = py_sorted_key_Inr [OF sd]
  have "set sd = set dir" using keys(2) by simp
  with load_loop_readable [OF loop]
  have rd: "\<forall>e\<in>set dir. py_endswith (fst e) image_exts \<longrightarrow> imread (snd e) \<noteq> None"
    by simp
  obtain ds where ds: "map_py (\<lambda>e. unpack_name_roll (fst e)) (enrolled_entries imread detect sd) = Inr ds"
    and R: "R = (map (entry_face imread detect) (enrolled_entries imread detect sd), ds)"
    using loop load_loop_eq [OF load_loop_readable [OF loop]] by (auto split: sum.splits)
  from ds have "\<forall>e\<in>set (enrolled_entries imread detect sd).
      unpack_name_roll (fst e) = Inr (projr (unpack_name_roll (fst e)))"
    and "ds = map (\<lambda>e. projr (unpack_name_roll (fst e))) (enrolled_entries imread detect sd)"
    by (auto simp: map_py_Inr_iff)
  with keys R rd show ?thesis by (intro that) auto
qed

lemma enrolled_entries_set:
  "e \<in> set (enrolled_entries imread detect xs) \<longleftrightarrow>
     e \<in> set xs \<and> py_endswith (fst e) image_exts
     \<and> (case imread (snd e) of None \<Rightarrow> False | Some img \<Rightarrow> detect img \<noteq> [])"
  by (cases e) (auto simp: enrolled_entries_def)

lemma loaded_roster_wf:
  assumes "load_known_faces imread detect dir = Inr R"
  shows "roster_wf R"
proof -
  obtain k where keys: "\<forall>e\<in>set dir. roster_sort_key (fst e) = Inr (k e)"
    and unp: "\<forall>e\<in>set (enrolled_entries imread detect (sort_key k dir)).
           unpack_name_roll (fst e) = Inr (projr (unpack_name_roll (fst e)))"
    and R: "R = (map (entry_face imread detect) (enrolled_entries imread detect (sort_key k dir)),
              map (\<lambda>e. projr (unpack_name_roll (fst e))) (enrolled_entries imread detect (sort_key k dir)))"
    using load_known_faces_Inr [OF assms] by blast
  let ?sel = "enrolled_entries imread detect (sort_key k dir)"
  have entry: "(case projr (unpack_name_roll (fst e)) of (n, r) \<Rightarrow>
        CHR ''_'' \<notin> set n \<and> CHR ''_'' \<notin> set r \<and> py_int r \<noteq> None)
      \<and> roll_int (projr (unpack_name_roll (fst e))) = k e" if e: "e \<in> set ?sel" for e
  proof -
    obtain n r where nr: "unpack_name_roll (fst e) = Inr (n, r)"
      using unp e by (metis surj_pair)
    have "e \<in> set dir" using e by (simp add: enrolled_entries_set)
    with keys nr have "py_int_raise r = Inr (k e)"
      using unpack_name_roll_Inr(4) [OF nr] by simp
    then have "py_int r = Some (k e)"
      by (simp add: py_int_raise_def split: option.splits)
    with unpack_name_roll_Inr(2,3) [OF nr] nr show ?thesis
      by (simp add: roll_int_def)
  qed
  have "sorted (map k ?sel)"
    by (simp add: enrolled_entries_def sorted_filter)
  moreover have "map roll_int (snd R) = map k ?sel"
    using entry R by simp
  ultimately have "sorted (map roll_int (snd R))"
    by simp
  moreover have "list_all (\<lambda>(n, r). CHR ''_'' \<notin> set n \<and> CHR ''_'' \<notin> set r \<and> py_int r \<noteq> None) (snd R)"
    using entry R by (auto simp: list_all_iff split: prod.splits)
  ultimately show ?thesis
    using R by (simp add: roster_wf_def)
qed

subsection \<open>File names written by enrollment\<close>

lemma enroll_filename_split:
  assumes "CHR ''/'' \<notin> set name" "CHR ''/'' \<notin> set roll"
  shows "splitext (enroll_filename name roll) = (name @ CHR ''_'' # roll, ''.jpg'')"
    and "py_endswith (enroll_filename name roll) image_exts"
proof -
  have "splitext ((name @ CHR ''_'' # roll) @ CHR ''.'' # ''jpg'')
      = (name @ CHR ''_'' # roll, CHR ''.'' # ''jpg'')"
    by (rule splitext_ext) (use assms in \<open>simp_all add: list_ex_iff\<close>)
  then show "splitext (enroll_filename name roll) = (name @ CHR ''_'' # roll, ''.jpg'')"
    by (simp add: enroll_filename_def)
  show "py_endswith (enroll_filename name roll) image_exts"
    using py_endswith_append [of "''.jpg''" image_exts "name @ CHR ''_'' # roll"]
    by (simp add: enroll_filename_def image_exts_def)
qed

lemma enroll_filename_parse:
  assumes "CHR ''/'' \<notin> set name" "CHR ''/'' \<notin> set roll"
    and "CHR ''_'' \<notin> set name" "CHR ''_'' \<notin> set roll"
  shows "unpack_name_roll (enroll_filename name roll) = Inr (name, roll)"
    and "roster_sort_key (enroll_filename name roll) = py_int_raise roll"
proof -
  have sp: "split_on CHR ''_'' (fst (splitext (enroll_filename name roll))) = [name, roll]"
    using enroll_filename_split(1) [OF assms(1,2)] assms(3,4)
    by (simp add: split_on_append_sep split_on_no_sep)
  then show "unpack_name_roll (enroll_filename name roll) = Inr (name, roll)"
    by (simp add: unpack_name_roll_def)
  from sp show "roster_sort_key (enroll_filename name roll) = py_int_raise roll"
    by (simp add: roster_sort_key_def py_get_def)
qed

text \<open>What a successful unpack of an enrolled file name says about the name and roll.\<close>

lemma enroll_filename_unpack_Inr:
  assumes "CHR ''/'' \<notin> set name" "CHR ''/'' \<notin> set roll"
    and "unpack_name_roll (enroll_filename name roll) = Inr nr"
  shows "CHR ''_'' \<notin> set name \<and> CHR ''_'' \<notin> set roll \<and> nr = (name, roll)"
proof -
  obtain n r where nr: "nr = (n, r)" by (cases nr)
  have sp: "split_on CHR ''_'' (name @ CHR ''_'' # roll) = [n, r]"
    using unpack_name_roll_Inr(1) [of "enroll_filename name roll" n r] assms(3) nr
      enroll_filename_split(1) [OF assms(1,2)] by simp
  then have "Suc (count_list (name @ CHR ''_'' # roll) CHR ''_'') = 2"
    by (metis length_split_on length_Cons list.size(3) numeral_2_eq_2)
  then have clean: "CHR ''_'' \<notin> set name" "CHR ''_'' \<notin> set roll"
    by (auto simp: count_list_0_iff)
  with sp have "[name, roll] = [n, r]"
    by (simp add: split_on_append_sep split_on_no_sep)
  with clean nr show ?thesis by simp
qed

lemma enroll_filename_no_slash:
  "CHR ''/'' \<notin> set name \<Longrightarrow> CHR ''/'' \<notin> set roll \<Longrightarrow> CHR ''/'' \<notin> set (enroll_filename name roll)"
  by (simp add: enroll_filename_def)

lemma enroll_ok_key:
  assumes "enroll_ok name roll" "CHR ''/'' \<notin> set name" "CHR ''/'' \<notin> set roll"
  shows "unpack_name_roll (enroll_filename name roll) = Inr (name, roll)"
    and "roster_sort_key (enroll_filename name roll) = Inr (roll_int (name, roll))"
  using enroll_filename_parse [OF assms(2,3)] assms(1)
  by (auto simp: enroll_ok_def roll_int_def py_int_raise_def split: option.splits)

subsection \<open>Association-list updates\<close>

lemma set_update_subset: "set (AList.update k v al) \<subseteq> insert (k, v) (set al)"
  by (induction al) auto

lemma in_set_update: "(k, v) \<in> set (AList.update k v al)"
  by (induction al) auto

lemma in_set_update_other: "e \<in> set al \<Longrightarrow> fst e \<noteq> k \<Longrightarrow> e \<in> set (AList.update k v al)"
  by (induction al) auto

subsection \<open>Loads that succeed\<close>

lemma load_known_faces_ok:
  assumes keys: "\<forall>x\<in>set dir. roster_sort_key (fst x) = Inr (k x)"
    and rd: "\<forall>e\<in>set dir. py_endswith (fst e) image_exts \<longrightarrow> imread (snd e) \<noteq> None"
    and unp: "\<forall>e\<in>set (enrolled_entries imread detect (sort_key k dir)). \<exists>nr. unpack_name_roll (fst e) = Inr nr"
  shows "load_known_faces imread detect dir =
    Inr (map (entry_face imread detect) (enrolled_entries imread detect (sort_key k dir)),
         map (\<lambda>e. projr (unpack_name_roll (fst e))) (enrolled_entries imread detect (sort_key k dir)))"
proof -
  have "map_py (\<lambda>e. unpack_name_roll (fst e)) (enrolled_entries imread detect (sort_key k dir))
      = Inr (map (\<lambda>e. projr (unpack_name_roll (fst e))) (enrolled_entries imread detect (sort_key k dir)))"
    using unp by (simp add: map_py_Inr_iff)
  with py_sorted_key_ok [OF keys] show ?thesis
    by (simp add: load_known_faces_eq [OF rd])
qed

lemma load_after_enroll:
  assumes old: "load_known_faces imread detect dir = Inr R"
    and ok: "enroll_ok name roll" and slash: "CHR ''/'' \<notin> set name" "CHR ''/'' \<notin> set roll"
    and dec: "imread (jpeg_encode img) = Some img'" and face: "detect img' = face # others"
  shows "\<exists>R' i. load_known_faces imread detect
             (save_known_face jpeg_encode dir (enroll_filename name roll) img) = Inr R'
           \<and> i < length (snd R') \<and> snd R' ! i = (name, roll) \<and> fst R' ! i = face"
proof -
  let ?fn = "enroll_filename name roll"
  let ?new = "(?fn, jpeg_encode img)"
  let ?dir = "AList.update ?fn (jpeg_encode img) dir"
  let ?k = "\<lambda>x. projr (roster_sort_key (fst x))"
  have dir': "save_known_face jpeg_encode dir ?fn img = ?dir"
    using enroll_filename_no_slash [OF slash] by (simp add: save_known_face_def)
  obtain k0 where keys0: "\<forall>e\<in>set dir. roster_sort_key (fst e) = Inr (k0 e)"
    and rd0: "\<forall>e\<in>set dir. py_endswith (fst e) image_exts \<longrightarrow> imread (snd e) \<noteq> None"
    and unp0: "\<forall>e\<in>set (enrolled_entries imread detect (sort_key k0 dir)).
           unpack_name_roll (fst e) = Inr (projr (unpack_name_roll (fst e)))"
    using load_known_faces_Inr [OF old] by blast
  note parse = enroll_ok_key [OF ok slash]
  have old_or_new: "x = ?new \<or> x \<in> set dir" if "x \<in> set ?dir" for x
    using that set_update_subset by fast
  have keys: "\<forall>x\<in>set ?dir. roster_sort_key (fst x) = Inr (?k x)"
    using keys0 parse(2) old_or_new by fastforce
  have rd: "\<forall>e\<in>set ?dir. py_endswith (fst e) image_exts \<longrightarrow> imread (snd e) \<noteq> None"
    using rd0 dec old_or_new by fastforce
  let ?sel = "enrolled_entries imread detect (sort_key ?k ?dir)"
  have unp: "\<forall>e\<in>set ?sel. \<exists>nr. unpack_name_roll (fst e) = Inr nr"
  proof
    fix e assume e: "e \<in> set ?sel"
    then have "e = ?new \<or> e \<in> set (enrolled_entries imread detect (sort_key k0 dir))"
      using old_or_new by (fastforce simp: enrolled_entries_set)
    then show "\<exists>nr. unpack_name_roll (fst e) = Inr nr"
      using parse(1) unp0 by fastforce
  qed
  have "?new \<in> set ?sel"
    using in_set_update enroll_filename_split(2) [OF slash] dec face
    by (simp add: enrolled_entries_set)
  then obtain i where i: "i < length ?sel" "?sel ! i = ?new"
    by (meson in_set_conv_nth)
  define R' where "R' = (map (entry_face imread detect) ?sel,
    map (\<lambda>e. projr (unpack_name_roll (fst e))) ?sel)"
  have load: "load_known_faces imread detect ?dir = Inr R'"
    unfolding R'_def using keys rd unp by (rule load_known_faces_ok)
  have "i < length (snd R')" "snd R' ! i = (name, roll)" "fst R' ! i = face"
    using i parse(1) dec face by (simp_all add: R'_def entry_face_def)
  with load show ?thesis
    unfolding dir' by blast
qed

text \<open>An identity loaded from one file survives writing another file whose name does
  not unpack to the same identity.\<close>

lemma load_after_save_keeps:
  assumes old: "load_known_faces imread detect dir = Inr R" and d: "d \<in> set (snd R)"
    and new: "load_known_faces imread detect (AList.update fn c dir) = Inr R'"
    and other: "unpack_name_roll fn \<noteq> Inr d"
  shows "d \<in> set (snd R')"
proof -
  obtain k where "\<forall>e\<in>set dir. roster_sort_key (fst e) = Inr (k e)"
    and "\<forall>e\<in>set dir. py_endswith (fst e) image_exts \<longrightarrow> imread (snd e) \<noteq> None"
    and unp: "\<forall>e\<in>set (enrolled_entries imread detect (sort_key k dir)).
           unpack_name_roll (fst e) = Inr (projr (unpack_name_roll (fst e)))"
    and R0: "R = (map (entry_face imread detect) (enrolled_entries imread detect (sort_key k dir)),
              map (\<lambda>e. projr (unpack_name_roll (fst e))) (enrolled_entries imread detect (sort_key k dir)))"
    by (rule load_known_faces_Inr [OF old])
  from d obtain e where e: "e \<in> set (enrolled_entries imread detect (sort_key k dir))"
    and de: "d = projr (unpack_name_roll (fst e))"
    unfolding R0 by auto
  have ue: "unpack_name_roll (fst e) = Inr d" using bspec [OF unp e, folded de] .
  have "fst e \<noteq> fn" using ue other by auto
  moreover have "e \<in> set dir" using e unfolding enrolled_entries_set by simp
  ultimately have e_new: "e \<in> set (AList.update fn c dir)" by (intro in_set_update_other)
  obtain k' where "\<forall>e\<in>set (AList.update fn c dir). roster_sort_key (fst e) = Inr (k' e)"
    and "\<forall>e\<in>set (AList.update fn c dir). py_endswith (fst e) image_exts \<longrightarrow> imread (snd e) \<noteq> None"
    and "\<forall>e\<in>set (enrolled_entries imread detect (sort_key k' (AList.update fn c dir))).
           unpack_name_roll (fst e) = Inr (projr (unpack_name_roll (fst e)))"
    and R1: "R' = (map (entry_face imread detect) (enrolled_entries imread detect (sort_key k' (AList.update fn c dir))),
      map (\<lambda>e. projr (unpack_name_roll (fst e))) (enrolled_entries imread detect (sort_key k' (AList.update fn c dir))))"
    by (rule load_known_faces_Inr [OF new])
  have "e \<in> set (enrolled_entries imread detect (sort_key k' (AList.update fn c dir)))"
    using e_new e unfolding enrolled_entries_set by simp
  then have "projr (unpack_name_roll (fst e)) \<in> set (snd R')"
    unfolding R1 by simp
  with ue show ?thesis by simp
qed

subsection \<open>Properties of the load\<close>

text \<open>
  C1. Every roster that \<open>load_known_faces\<close> returns is well formed: the embedding and
  detail lists have the same length, every name and roll is free of underscores, every
  roll is a valid \<open>int()\<close> literal, and the details are sorted by numeric roll.
\<close>

theorem load_known_faces_wf:
  assumes "load_known_faces imread detect dir = Inr R"
  shows "roster_wf R"
  using assms by (rule loaded_roster_wf)

text \<open>
  C14. A single file in \<open>known_faces\<close> whose sort key raises (no underscore in its stem,
  or a second part that \<open>int()\<close> rejects), image or not, makes \<open>load_known_faces\<close> raise:
  the key is computed for the whole listing before the extension filter of line 27.
\<close>

lemma load_known_faces_key_error:
  assumes "\<exists>x\<in>set dir. \<exists>e. roster_sort_key (fst x) = Inl e"
  shows "\<exists>e. load_known_faces imread detect dir = Inl e"
proof -
  from assms obtain e where "py_sorted_key (\<lambda>x. roster_sort_key (fst x)) dir = Inl e"
    using py_sorted_key_raises [of "\<lambda>x. roster_sort_key (fst x)" dir] by blast
  then show ?thesis by (simp add: load_known_faces_def)
qed

text \<open>
  C23. A single \<open>.jpg\<close> or \<open>.png\<close> file in \<open>known_faces\<close> that OpenCV cannot decode makes
  \<open>load_known_faces\<close> raise: the loop does not skip it, the face model raises on the
  \<open>None\<close> that \<open>cv2.imread\<close> returns.
\<close>

theorem load_known_faces_unreadable:
  assumes "e \<in> set dir" and "py_endswith (fst e) image_exts" and "imread (snd e) = None"
  shows "\<exists>err. load_known_faces imread detect dir = Inl err"
proof (cases "load_known_faces imread detect dir")
  case (Inl err)
  then show ?thesis by blast
next
  case (Inr R)
  then obtain k where "\<forall>e\<in>set dir. py_endswith (fst e) image_exts \<longrightarrow> imread (snd e) \<noteq> None"
    by (rule load_known_faces_Inr)
  with assms show ?thesis by auto
qed

text \<open>
  C15. When every file name has a valid roll key and no two files share a roll,
  \<open>load_known_faces\<close> does not depend on the order in which \<open>os.listdir\<close> returns the
  files.
\<close>

lemma load_known_faces_listing_order:
  assumes perm: "mset dir' = mset dir"
    and keys: "\<forall>x\<in>set dir. roster_sort_key (fst x) = Inr (k x)"
    and inj: "inj_on k (set dir)"
  shows "load_known_faces imread detect dir' = load_known_faces imread detect dir"
proof -
  have set_eq: "set dir' = set dir"
    using perm by (metis set_mset_mset)
  have "sort_key k dir' = sort_key k dir"
  proof (rule sort_key_inj_key_eq)
    show "mset dir' = mset (sort_key k dir)" using perm by simp
    show "inj_on k (set dir')" using inj set_eq by simp
    show "sorted (map k (sort_key k dir))" by simp
  qed
  moreover have "py_sorted_key (\<lambda>x. roster_sort_key (fst x)) dir = Inr (sort_key k dir)"
    using keys by (rule py_sorted_key_ok)
  moreover have "py_sorted_key (\<lambda>x. roster_sort_key (fst x)) dir' = Inr (sort_key k dir')"
    using keys set_eq by (intro py_sorted_key_ok) simp
  ultimately show ?thesis by (simp add: load_known_faces_def)
qed

text \<open>
  C24. Two enrolled files whose rolls are equal as numbers (such as \<open>1\<close> and \<open>01\<close>) are
  loaded in the order \<open>os.listdir\<close> returns them: the stable sort keeps the file
  system's order among equal rolls, so the roster (and the tie-break of the matcher)
  depends on the listing order.
\<close>

theorem load_equal_rolls_listing_order:
  assumes ok: "enroll_ok n1 r1" "enroll_ok n2 r2"
    and slash: "CHR ''/'' \<notin> set n1" "CHR ''/'' \<notin> set r1" "CHR ''/'' \<notin> set n2" "CHR ''/'' \<notin> set r2"
    and same: "py_int r1 = py_int r2"
    and f1: "imread c1 = Some i1" "detect i1 = face1 # others1"
    and f2: "imread c2 = Some i2" "detect i2 = face2 # others2"
  shows "load_known_faces imread detect [(enroll_filename n1 r1, c1), (enroll_filename n2 r2, c2)]
           = Inr ([face1, face2], [(n1, r1), (n2, r2)])
       \<and> load_known_faces imread detect [(enroll_filename n2 r2, c2), (enroll_filename n1 r1, c1)]
           = Inr ([face2, face1], [(n2, r2), (n1, r1)])"
proof -
  note p1 = enroll_ok_key [OF ok(1) slash(1,2)] and p2 = enroll_ok_key [OF ok(2) slash(3,4)]
  have eq: "roll_int (n1, r1) = roll_int (n2, r2)" using same by (simp add: roll_int_def)
  have e1: "py_endswith (enroll_filename n1 r1) image_exts"
    and e2: "py_endswith (enroll_filename n2 r2) image_exts"
    using enroll_filename_split(2) slash by blast+
  have load2: "load_known_faces imread detect [(enroll_filename a b, c), (enroll_filename a' b', c')]
      = Inr ([face, face'], [(a, b), (a', b')])"
    if "roster_sort_key (enroll_filename a b) = Inr m" "roster_sort_key (enroll_filename a' b') = Inr m"
      "unpack_name_roll (enroll_filename a b) = Inr (a, b)"
      "unpack_name_roll (enroll_filename a' b') = Inr (a', b')"
      "py_endswith (enroll_filename a b) image_exts" "py_endswith (enroll_filename a' b') image_exts"
      "imread c = Some i" "detect i = face # fs" "imread c' = Some i'" "detect i' = face' # fs'"
    for a b a' b' c c' m i i' face face' fs fs'
  proof -
    have "load_known_faces imread detect [(enroll_filename a b, c), (enroll_filename a' b', c')] =
      Inr (map (entry_face imread detect) (enrolled_entries imread detect
             (sort_key (\<lambda>x. m) [(enroll_filename a b, c), (enroll_filename a' b', c')])),
           map (\<lambda>e. projr (unpack_name_roll (fst e))) (enrolled_entries imread detect
             (sort_key (\<lambda>x. m) [(enroll_filename a b, c), (enroll_filename a' b', c')])))"
      using that by (intro load_known_faces_ok) (auto simp: enrolled_entries_set)
    with that show ?thesis
      by (simp add: enrolled_entries_def entry_face_def)
  qed
  show ?thesis
    using load2 [OF p1(2) p2(2) [folded eq] p1(1) p2(1) e1 e2 f1 f2]
      load2 [OF p2(2) [folded eq] p1(2) p2(1) p1(1) e2 e1 f2 f1] eq
    by simp
qed

subsection \<open>Enrollment and the next load\<close>

text \<open>
  C5. Round trip of enrollment: after \<open>add_face\<close> writes \<open>name_roll.jpg\<close> for an
  underscore- and slash-free name and an integer roll, the next \<open>load_known_faces\<close>
  succeeds and returns that identity with the first face detected in the image decoded
  back from the written JPEG file.
\<close>

theorem enroll_then_load:
  assumes old: "load_known_faces imread detect dir = Inr R"
    and ok: "enroll_ok name roll" and slash: "CHR ''/'' \<notin> set name" "CHR ''/'' \<notin> set roll"
    and dec: "imread (jpeg_encode img) = Some img'" and face: "detect img' = face # others"
  shows "\<exists>R' i. load_known_faces imread detect
             (save_known_face jpeg_encode dir (enroll_filename name roll) img) = Inr R'
           \<and> i < length (snd R') \<and> snd R' ! i = (name, roll) \<and> fst R' ! i = face"
  using old ok slash dec face by (rule load_after_enroll)

text \<open>
  C6. \<open>add_face\<close> accepts any non-empty name and roll, but if the name or roll contains
  an underscore or the roll is not an integer, every later \<open>load_known_faces\<close> raises
  (when the written file decodes to an image showing a face): one enrollment disables
  attendance marking.
\<close>

theorem enroll_bad_name_breaks_load:
  assumes slash: "CHR ''/'' \<notin> set name" "CHR ''/'' \<notin> set roll"
    and bad: "\<not> enroll_ok name roll"
    and face: "\<forall>img'. imread (jpeg_encode img) = Some img' \<longrightarrow> detect img' \<noteq> []"
  shows "\<exists>e. load_known_faces imread detect
             (save_known_face jpeg_encode dir (enroll_filename name roll) img) = Inl e"
proof (rule ccontr)
  let ?fn = "enroll_filename name roll"
  let ?new = "(?fn, jpeg_encode img)"
  let ?dir = "AList.update ?fn (jpeg_encode img) dir"
  assume "\<nexists>e. load_known_faces imread detect (save_known_face jpeg_encode dir ?fn img) = Inl e"
  then obtain R where R: "load_known_faces imread detect ?dir = Inr R"
    using enroll_filename_no_slash [OF slash]
    by (cases "load_known_faces imread detect ?dir") (auto simp: save_known_face_def)
  obtain k where keys: "\<forall>e\<in>set ?dir. roster_sort_key (fst e) = Inr (k e)"
    and rd: "\<forall>e\<in>set ?dir. py_endswith (fst e) image_exts \<longrightarrow> imread (snd e) \<noteq> None"
    and unp: "\<forall>e\<in>set (enrolled_entries imread detect (sort_key k ?dir)).
           unpack_name_roll (fst e) = Inr (projr (unpack_name_roll (fst e)))"
    using load_known_faces_Inr [OF R] by blast
  have ends: "py_endswith ?fn image_exts" by (rule enroll_filename_split(2) [OF slash])
  with rd in_set_update obtain img' where dec: "imread (jpeg_encode img) = Some img'" by fastforce
  have "?new \<in> set (enrolled_entries imread detect (sort_key k ?dir))"
    using in_set_update ends dec face by (simp add: enrolled_entries_set)
  with unp have "unpack_name_roll ?fn = Inr (projr (unpack_name_roll ?fn))" by fastforce
  then have clean: "CHR ''_'' \<notin> set name" "CHR ''_'' \<notin> set roll"
    using enroll_filename_unpack_Inr [OF slash] by blast+
  have "roster_sort_key ?fn = Inr (k ?new)"
    using keys in_set_update by fastforce
  then have "py_int roll \<noteq> None"
    using enroll_filename_parse(2) [OF slash clean] by (auto simp: py_int_raise_def split: option.splits)
  with clean bad show False by (simp add: enroll_ok_def)
qed

text \<open>
  C19. \<open>add_face\<close> does not reject a roll that is already enrolled: enrolling two
  different names with the same roll gives a roster with two entries of that roll,
  contrary to the specification's one entry per roll identifier.
\<close>

theorem enroll_duplicate_roll:
  assumes old: "load_known_faces imread detect dir = Inr R"
    and ok: "enroll_ok n1 r" "enroll_ok n2 r" and names: "n1 \<noteq> n2"
    and slash: "CHR ''/'' \<notin> set n1" "CHR ''/'' \<notin> set n2" "CHR ''/'' \<notin> set r"
    and f1: "imread (jpeg_encode img1) = Some i1" "detect i1 \<noteq> []"
    and f2: "imread (jpeg_encode img2) = Some i2" "detect i2 \<noteq> []"
  shows "\<exists>R'. load_known_faces imread detect
             (save_known_face jpeg_encode (save_known_face jpeg_encode dir (enroll_filename n1 r) img1)
                (enroll_filename n2 r) img2) = Inr R'
           \<and> (n1, r) \<in> set (snd R') \<and> (n2, r) \<in> set (snd R')"
proof -
  let ?dir1 = "save_known_face jpeg_encode dir (enroll_filename n1 r) img1"
  obtain face1 o1 where "detect i1 = face1 # o1" using f1(2) by (cases "detect i1") auto
  then obtain R1 j where R1: "load_known_faces imread detect ?dir1 = Inr R1"
    and j: "j < length (snd R1)" "snd R1 ! j = (n1, r)"
    using load_after_enroll [where jpeg_encode = jpeg_encode and img = img1, OF old ok(1) slash(1,3) f1(1)] by blast
  obtain face2 o2 where "detect i2 = face2 # o2" using f2(2) by (cases "detect i2") auto
  then obtain R' i where R': "load_known_faces imread detect
      (save_known_face jpeg_encode ?dir1 (enroll_filename n2 r) img2) = Inr R'"
    and i: "i < length (snd R')" "snd R' ! i = (n2, r)"
    using load_after_enroll [where jpeg_encode = jpeg_encode and img = img2, OF R1 ok(2) slash(2,3) f2(1)] by blast
  have upd: "save_known_face jpeg_encode ?dir1 (enroll_filename n2 r) img2
      = AList.update (enroll_filename n2 r) (jpeg_encode img2) ?dir1"
    using enroll_filename_no_slash [OF slash(2,3)] by (simp add: save_known_face_def)
  have "unpack_name_roll (enroll_filename n2 r) \<noteq> Inr (n1, r)"
    using enroll_ok_key(1) [OF ok(2) slash(2,3)] names by simp
  then have "(n1, r) \<in> set (snd R')"
    using load_after_save_keeps [OF R1 _ R' [unfolded upd]] j by (metis nth_mem)
  moreover have "(n2, r) \<in> set (snd R')" using i by (metis nth_mem)
  ultimately show ?thesis using R' by blast
qed

subsection \<open>Witnesses\<close>

lemma load_known_faces_wf_witness:
  "load_known_faces Some (\<lambda>e::real list. [e]) [(''Alice_1.jpg'', [1, 0])] = Inr ([[1, 0]], [(''Alice'', ''1'')])
   \<and> roster_wf ([[1::real, 0]], [(''Alice'', ''1'')])"
proof -
  have l: "load_known_faces Some (\<lambda>e::real list. [e]) [(''Alice_1.jpg'', [1, 0])]
      = Inr ([[1, 0]], [(''Alice'', ''1'')])"
    by code_simp
  show ?thesis using l load_known_faces_wf [OF l] by simp
qed

lemma load_known_faces_key_error_witness:
  "roster_sort_key ''notes.txt'' = Inl IndexError
   \<and> (\<exists>e. load_known_faces Some (\<lambda>e::real list. [e]) [(''notes.txt'', [1, 1])] = Inl e)"
proof -
  have k: "roster_sort_key ''notes.txt'' = Inl IndexError" by code_simp
  then have h: "\<exists>x\<in>set [(''notes.txt'', [1::real, 1])]. \<exists>e. roster_sort_key (fst x) = Inl e"
    by auto
  show ?thesis using k load_known_faces_key_error [OF h, of Some "\<lambda>e::real list. [e]"] by blast
qed

lemma load_known_faces_unreadable_witness:
  "\<exists>err. load_known_faces (\<lambda>c::real list. if c = [] then None else Some c) (\<lambda>e::real list. [e])
      [(''Alice_1.jpg'', [1, 0]), (''Bob_2.jpg'', [])] = Inl err"
  by (rule load_known_faces_unreadable [of "(''Bob_2.jpg'', [])"]) code_simp+

lemma load_known_faces_listing_order_witness:
  "roster_sort_key ''Alice_1.jpg'' = Inr 1 \<and> roster_sort_key ''Bob_2.jpg'' = Inr 2
   \<and> load_known_faces Some (\<lambda>e::real list. [e]) [(''Bob_2.jpg'', [0, 1]), (''Alice_1.jpg'', [1, 0])]
     = load_known_faces Some (\<lambda>e::real list. [e]) [(''Alice_1.jpg'', [1, 0]), (''Bob_2.jpg'', [0, 1])]"
proof -
  have p: "mset [(''Bob_2.jpg'', [0::real, 1]), (''Alice_1.jpg'', [1, 0])]
      = mset [(''Alice_1.jpg'', [1, 0]), (''Bob_2.jpg'', [0, 1])]"
    by simp
  have a: "roster_sort_key ''Alice_1.jpg'' = Inr 1" by code_simp
  have b: "roster_sort_key ''Bob_2.jpg'' = Inr 2" by code_simp
  have k: "\<forall>x\<in>set [(''Alice_1.jpg'', [1::real, 0]), (''Bob_2.jpg'', [0, 1])].
        roster_sort_key (fst x) = Inr (if fst x = ''Alice_1.jpg'' then 1 else 2)"
    using a b by simp
  have i: "inj_on (\<lambda>x::string \<times> real list. if fst x = ''Alice_1.jpg'' then (1::int) else 2)
        (set [(''Alice_1.jpg'', [1, 0]), (''Bob_2.jpg'', [0, 1])])"
    by simp
  show ?thesis using a b load_known_faces_listing_order [OF p k i] by blast
qed

lemma load_equal_rolls_listing_order_witness:
  "load_known_faces Some (\<lambda>e::real list. [e]) [(''Alice_1.jpg'', [1, 0]), (''Bob_01.jpg'', [0, 1])]
     = Inr ([[1, 0], [0, 1]], [(''Alice'', ''1''), (''Bob'', ''01'')])
   \<and> load_known_faces Some (\<lambda>e::real list. [e]) [(''Bob_01.jpg'', [0, 1]), (''Alice_1.jpg'', [1, 0])]
     = Inr ([[0, 1], [1, 0]], [(''Bob'', ''01''), (''Alice'', ''1'')])"
proof -
  have ok: "enroll_ok ''Alice'' ''1''" "enroll_ok ''Bob'' ''01''" by code_simp+
  have same: "py_int ''1'' = py_int ''01''" by code_simp
  have fa: "enroll_filename ''Alice'' ''1'' = ''Alice_1.jpg''"
    and fb: "enroll_filename ''Bob'' ''01'' = ''Bob_01.jpg''" by (simp_all add: enroll_filename_def)
  show ?thesis
    using load_equal_rolls_listing_order [OF ok _ _ _ _ same, of Some "[1, 0]" "[1, 0]" "\<lambda>e::real list. [e]"
        "[1, 0]" "[]" "[0, 1]" "[0, 1]" "[0, 1]" "[]"]
    unfolding fa fb by simp
qed

lemma enroll_then_load_witness:
  "\<exists>R' i. load_known_faces Some (\<lambda>e::real list. [e])
       (save_known_face id [] (enroll_filename ''Alice'' ''1'') [1, 0]) = Inr R'
     \<and> i < length (snd R') \<and> snd R' ! i = (''Alice'', ''1'') \<and> fst R' ! i = [1, 0]"
proof -
  have l: "load_known_faces Some (\<lambda>e::real list. [e]) [] = Inr ([], [])" by code_simp
  have ok: "enroll_ok ''Alice'' ''1''" by code_simp
  show ?thesis
    by (rule enroll_then_load [OF l ok, where jpeg_encode = id and img' = "[1, 0]" and others = "[]"]) simp_all
qed

lemma enroll_bad_name_breaks_load_witness:
  "\<exists>e. load_known_faces Some (\<lambda>e::real list. [e])
          (save_known_face id [(''Bob_2.jpg'', [0, 1])] (enroll_filename ''Mary_Ann'' ''3'') [1, 0]) = Inl e"
proof -
  have bad: "\<not> enroll_ok ''Mary_Ann'' ''3''" by (simp add: enroll_ok_def)
  show ?thesis
    by (rule enroll_bad_name_breaks_load [OF _ _ bad]) simp_all
qed

lemma enroll_duplicate_roll_witness:
  "\<exists>R'. load_known_faces Some (\<lambda>e::real list. [e])
       (save_known_face id (save_known_face id [] (enroll_filename ''Alice'' ''1'') [1, 0])
          (enroll_filename ''Bob'' ''1'') [0, 1]) = Inr R'
     \<and> (''Alice'', ''1'') \<in> set (snd R') \<and> (''Bob'', ''1'') \<in> set (snd R')"
proof -
  have l: "load_known_faces Some (\<lambda>e::real list. [e]) [] = Inr ([], [])" by code_simp
  have ok: "enroll_ok ''Alice'' ''1''" "enroll_ok ''Bob'' ''1''" by code_simp+
  show ?thesis
    by (rule enroll_duplicate_roll [OF l ok, where jpeg_encode = id]) simp_all
qed

end
