(* ===== verification/Matcher.thy ===== *)
theory Matcher
  imports Roster
begin

text \<open>
  The similarity matcher of \<open>main.py\<close>: \<open>cosine_similarity\<close> (lines 37--39) and the
  best-match scan that \<open>mark_attendance\<close> runs for each detected face against the loaded
  roster (lines 52--63). Embeddings are lists of reals (numpy's float32 rounding is not
  modelled). numpy's result of the division is a \<open>fval\<close>: a number, or NaN when a
  norm is zero (then the dot product is zero too and numpy computes \<open>0/0\<close>). NaN
  compares false with \<open>>\<close>, so the scan never picks it. \<open>np.dot\<close> of vectors of
  different lengths raises ValueError.
\<close>

datatype fval = Num real | NaN

definition dot :: "embedding \<Rightarrow> embedding \<Rightarrow> real" where
  "dot a b = sum_list (map2 (\<lambda>x y. x * y) a b)"

text \<open>\<open>np.linalg.norm\<close>: the Euclidean norm.\<close>

definition vec_norm :: "embedding \<Rightarrow> real" where
  "vec_norm a = sqrt (dot a a)"

text \<open>The value of \<open>np.dot(a, b) / (np.linalg.norm(a) * np.linalg.norm(b))\<close> for
  vectors of equal length.\<close>

definition cos_sim :: "embedding \<Rightarrow> embedding \<Rightarrow> fval" where
  "cos_sim a b = (let d = vec_norm a * vec_norm b in if d = 0 then NaN else Num (dot a b / d))"

definition cosine_similarity :: "embedding \<Rightarrow> embedding \<Rightarrow> fval py" where
  "cosine_similarity a b = (if length a = length b then Inr (cos_sim a b) else Inl ValueError)"

text \<open>Line 61: \<open>if best_score > 0.5\<close>.\<close>

definition match_threshold :: real where
  "match_threshold = 1 / 2"

text \<open>Lines 52--59: the scan over \<open>enumerate(known_embeddings)\<close> with the running
  \<open>(best_match_index, best_score)\<close>, both starting at \<open>-1\<close>.\<close>

fun best_match_loop :: "embedding \<Rightarrow> nat \<Rightarrow> embedding list \<Rightarrow> int \<times> real \<Rightarrow> (int \<times> real) py" where
  "best_match_loop probe idx [] best = Inr best"
| "best_match_loop probe idx (k # ks) (bi, bs) =
     (case cosine_similarity probe k of
        Inl e \<Rightarrow> Inl e
      | Inr sim \<Rightarrow>
          best_match_loop probe (Suc idx) ks
            (case sim of Num x \<Rightarrow> if bs < x then (int idx, x) else (bi, bs) | NaN \<Rightarrow> (bi, bs)))"

text \<open>Lines 52--63 for one face: the identity \<open>student_details[best_match_index]\<close> if
  the best score passes the threshold, else none.\<close>

definition match_face :: "roster \<Rightarrow> embedding \<Rightarrow> identity option py" where
  "match_face R probe =
     (case best_match_loop probe 0 (fst R) (-1, -1) of
        Inl e \<Rightarrow> Inl e
      | Inr (bi, bs) \<Rightarrow>
          if match_threshold < bs then
            (case py_get (snd R) bi of Inl e \<Rightarrow> Inl e | Inr d \<Rightarrow> Inr (Some d))
          else Inr None)"

subsection \<open>Abstract specification of the matcher\<close>

text \<open>The numeric scores of a list of results, NaNs dropped.\<close>

definition num_scores :: "fval list \<Rightarrow> real list" where
  "num_scores ss = concat (map (\<lambda>s. case s of Num x \<Rightarrow> [x] | NaN \<Rightarrow> []) ss)"

text \<open>The best score is the largest numeric similarity, and at least the initial
  \<open>-1\<close>; the chosen entry is the first one that attains it.\<close>

definition best_score :: "embedding \<Rightarrow> embedding list \<Rightarrow> real" where
  "best_score probe ks = Max (set (-1 # num_scores (map (cos_sim probe) ks)))"

definition best_index :: "embedding \<Rightarrow> embedding list \<Rightarrow> nat option" where
  "best_index probe ks = first_index (\<lambda>s. s = Num (best_score probe ks)) (map (cos_sim probe) ks)"

definition match_spec :: "roster \<Rightarrow> embedding \<Rightarrow> identity option" where
  "match_spec R probe =
     (if match_threshold < best_score probe (fst R)
      then map_option (\<lambda>i. snd R ! i) (best_index probe (fst R)) else None)"

subsection \<open>The scan against the abstract specification\<close>

lemma num_scores_simps [simp]:
  "num_scores [] = []"
  "num_scores (Num x # ss) = x # num_scores ss"
  "num_scores (NaN # ss) = num_scores ss"
  by (simp_all add: num_scores_def)

lemma in_num_scores: "x \<in> set (num_scores ss) \<longleftrightarrow> Num x \<in> set ss"
  by (induction ss) (auto simp: num_scores_def split: fval.splits)

lemma Max_cons_new: "Max (set (b # xs :: real list)) \<noteq> b \<Longrightarrow> Max (set (b # xs)) \<in> set xs"
  by (metis Max_in finite_set list.set_intros(1) list.simps(15) empty_not_insert insert_iff)

lemma first_index_Max:
  assumes "Max (set (b # num_scores ss)) \<noteq> b"
  shows "\<exists>i. first_index (\<lambda>s. s = Num (Max (set (b # num_scores ss)))) ss = Some i"
proof -
  have "Num (Max (set (b # num_scores ss))) \<in> set ss"
    using Max_cons_new [OF assms] by (simp add: in_num_scores)
  then show ?thesis
    by (cases "first_index (\<lambda>s. s = Num (Max (set (b # num_scores ss)))) ss")
      (auto simp: first_index_None)
qed

lemma best_match_loop_eq:
  assumes "\<forall>k\<in>set ks. length k = length probe"
  shows "best_match_loop probe idx ks (bi, bs) =
    Inr (let ss = map (cos_sim probe) ks; m = Max (set (bs # num_scores ss)) in
         if m = bs then (bi, bs) else (int (idx + the (first_index (\<lambda>s. s = Num m) ss)), m))"
  using assms
proof (induction ks arbitrary: idx bi bs)
  case Nil
  then show ?case by simp
next
  case (Cons k ks)
  let ?ss = "map (cos_sim probe) ks"
  have sim: "cosine_similarity probe k = Inr (cos_sim probe k)"
    using Cons.prems by (simp add: cosine_similarity_def)
  show ?case
  proof (cases "cos_sim probe k")
    case NaN
    with sim Cons first_index_Max [of bs ?ss] show ?thesis
      by (auto simp: Let_def)
  next
    case (Num x)
    show ?thesis
    proof (cases "bs < x")
      case True
      have ge: "x \<le> Max (set (x # num_scores ?ss))" by simp
      have "Max (set (bs # x # num_scores ?ss)) = max bs (Max (set (x # num_scores ?ss)))"
        by (simp add: Max_insert)
      moreover have "bs \<le> Max (set (x # num_scores ?ss))"
        using ge True by linarith
      ultimately have "Max (set (bs # x # num_scores ?ss)) = Max (set (x # num_scores ?ss))"
        by (simp only: max_absorb2)
      moreover note ge
      ultimately show ?thesis
        using sim Num True Cons first_index_Max [of x ?ss]
        by (auto simp: Let_def)
    next
      case False
      have ge: "bs \<le> Max (set (bs # num_scores ?ss))" by simp
      have "set (bs # x # num_scores ?ss) = insert x (set (bs # num_scores ?ss))" by auto
      then have "Max (set (bs # x # num_scores ?ss)) = max x (Max (set (bs # num_scores ?ss)))"
        by (simp only: Max_insert finite_set) simp
      moreover have "x \<le> Max (set (bs # num_scores ?ss))"
        using ge False by linarith
      ultimately have "Max (set (bs # x # num_scores ?ss)) = Max (set (bs # num_scores ?ss))"
        by (simp only: max_absorb2)
      then show ?thesis
        using sim Num False Cons first_index_Max [of bs ?ss]
        by (auto simp: Let_def)
    qed
  qed
qed

lemma best_match_loop_dims:
  "best_match_loop probe idx ks st = Inr r \<Longrightarrow> \<forall>k\<in>set ks. length k = length probe"
proof (induction ks arbitrary: idx st)
  case Nil
  then show ?case by simp
next
  case (Cons k ks)
  obtain bi bs where st: "st = (bi, bs)" by (cases st)
  show ?case
  proof (cases "length k = length probe")
    case True
    then have "best_match_loop probe (Suc idx) ks
        (case cos_sim probe k of Num x \<Rightarrow> if bs < x then (int idx, x) else (bi, bs) | NaN \<Rightarrow> (bi, bs)) = Inr r"
      using Cons.prems st by (simp add: cosine_similarity_def)
    then have "\<forall>k\<in>set ks. length k = length probe"
      by (rule Cons.IH)
    with True show ?thesis by simp
  next
    case False
    with Cons.prems st show ?thesis by (simp add: cosine_similarity_def)
  qed
qed

lemma best_match_loop_dim_error:
  "\<exists>k\<in>set ks. length k \<noteq> length probe \<Longrightarrow> best_match_loop probe idx ks st = Inl ValueError"
proof (induction probe idx ks st rule: best_match_loop.induct)
  case (1 probe idx best)
  then show ?case by simp
next
  case (2 probe idx k ks bi bs)
  show ?case
  proof (cases "length k = length probe")
    case True
    with "2.prems" have "\<exists>k\<in>set ks. length k \<noteq> length probe" by auto
    with True "2.IH" show ?thesis by (simp add: cosine_similarity_def)
  next
    case False
    then show ?thesis by (simp add: cosine_similarity_def)
  qed
qed

lemma best_score_ge: "Num y \<in> set (map (cos_sim probe) ks) \<Longrightarrow> y \<le> best_score probe ks"
proof -
  assume "Num y \<in> set (map (cos_sim probe) ks)"
  then have "y \<in> set (-1 # num_scores (map (cos_sim probe) ks))"
    by (simp only: in_num_scores list.set_intros(2))
  then show ?thesis unfolding best_score_def by simp
qed

lemma best_score_min: "-1 \<le> best_score probe ks"
  by (simp add: best_score_def)

lemma best_index_Some:
  assumes "best_score probe ks \<noteq> -1"
  shows "\<exists>i. best_index probe ks = Some i"
  using first_index_Max [of "-1" "map (cos_sim probe) ks"] assms
  by (simp add: best_index_def best_score_def)

lemma best_match_loop_spec:
  assumes "\<forall>k\<in>set ks. length k = length probe"
  shows "best_match_loop probe 0 ks (-1, -1) =
    Inr (if best_score probe ks = -1 then (-1, -1)
         else (int (the (best_index probe ks)), best_score probe ks))"
  using best_match_loop_eq [OF assms, of 0 "-1" "-1"]
  by (simp add: Let_def best_score_def best_index_def)

lemma match_face_spec:
  assumes dims: "\<forall>k\<in>set (fst R). length k = length probe"
    and len: "length (snd R) = length (fst R)"
  shows "match_face R probe = Inr (match_spec R probe)"
proof (cases "best_score probe (fst R) = -1")
  case True
  then show ?thesis
    using best_match_loop_spec [OF dims]
    by (simp add: match_face_def match_spec_def match_threshold_def)
next
  case False
  then obtain i where i: "best_index probe (fst R) = Some i"
    using best_index_Some by blast
  then have "i < length (fst R)"
    by (simp add: best_index_def first_index_Some)
  with len have "py_get (snd R) (int i) = Inr (snd R ! i)" by simp
  with False i show ?thesis
    using best_match_loop_spec [OF dims]
    by (simp add: match_face_def match_spec_def)
qed

text \<open>
  C7. Soundness of a match: when \<open>match_face\<close> returns an identity, it is the detail
  of an entry whose similarity is the best of the roster, strictly above 0.5, and no
  earlier entry reaches that score.
\<close>

theorem match_face_sound:
  assumes m: "match_face R probe = Inr (Some d)"
    and len: "length (snd R) = length (fst R)"
  shows "\<exists>i<length (fst R). snd R ! i = d
    \<and> cos_sim probe (fst R ! i) = Num (best_score probe (fst R))
    \<and> match_threshold < best_score probe (fst R)
    \<and> (\<forall>j<length (fst R). \<forall>y. cos_sim probe (fst R ! j) = Num y \<longrightarrow> y \<le> best_score probe (fst R))
    \<and> (\<forall>j<i. cos_sim probe (fst R ! j) \<noteq> Num (best_score probe (fst R)))"
proof -
  obtain r where "best_match_loop probe 0 (fst R) (-1, -1) = Inr r"
    using m by (auto simp: match_face_def split: sum.splits)
  then have dims: "\<forall>k\<in>set (fst R). length k = length probe"
    by (rule best_match_loop_dims)
  have spec: "match_spec R probe = Some d"
    using m match_face_spec [OF dims len] by simp
  then obtain i where i: "best_index probe (fst R) = Some i" "snd R ! i = d"
    and thr: "match_threshold < best_score probe (fst R)"
    by (auto simp: match_spec_def split: if_splits)
  from i(1) have "i < length (fst R)"
    and "cos_sim probe (fst R ! i) = Num (best_score probe (fst R))"
    and "\<forall>j<i. cos_sim probe (fst R ! j) \<noteq> Num (best_score probe (fst R))"
    by (auto simp: best_index_def first_index_Some)
  moreover have "\<forall>j<length (fst R). \<forall>y. cos_sim probe (fst R ! j) = Num y \<longrightarrow> y \<le> best_score probe (fst R)"
    by (metis best_score_ge length_map nth_map nth_mem)
  ultimately show ?thesis using i(2) thr by blast
qed

subsection \<open>Cosine similarity: Cauchy--Schwarz and its bounds\<close>

lemma dot_Cons [simp]: "dot (x # a) (y # b) = x * y + dot a b"
  by (simp add: dot_def)

lemma dot_Nil [simp]: "dot [] b = 0" "dot a [] = 0"
  by (simp_all add: dot_def)

lemma dot_self_nonneg: "0 \<le> dot a a"
  by (induction a) (simp_all add: dot_def)

lemma dot_zero_left: "dot a a = 0 \<Longrightarrow> dot a b = 0"
proof (induction a arbitrary: b)
  case Nil
  then show ?case by simp
next
  case (Cons y a)
  have "0 \<le> y * y" "0 \<le> dot a a" by (simp_all add: dot_self_nonneg)
  moreover have "y * y + dot a a = 0" using Cons.prems by simp
  ultimately have "y * y = 0" "dot a a = 0" by linarith+
  with Cons.IH show ?case by (cases b) simp_all
qed

text \<open>The quadratic \<open>\<Sum>(t a\<^sub>i + b\<^sub>i)\<^sup>2\<close> behind the Cauchy--Schwarz inequality.\<close>

lemma dot_shift:
  "length a = length b \<Longrightarrow>
   dot (map2 (\<lambda>x y. t * x + y) a b) (map2 (\<lambda>x y. t * x + y) a b)
     = t * t * dot a a + 2 * t * dot a b + dot b b"
  by (induction a b rule: list_induct2) (simp_all add: algebra_simps)

theorem cauchy_schwarz:
  assumes "length a = length b"
  shows "dot a b * dot a b \<le> dot a a * dot b b"
proof (cases "dot a a = 0")
  case True
  then show ?thesis by (simp add: dot_zero_left)
next
  case False
  then have A: "0 < dot a a" using dot_self_nonneg [of a] by linarith
  define t where "t = - dot a b / dot a a"
  have "0 \<le> t * t * dot a a + 2 * t * dot a b + dot b b"
    using dot_shift [OF assms, of t] dot_self_nonneg by metis
  also have "\<dots> = dot b b - dot a b * dot a b / dot a a"
    using A by (simp add: t_def field_simps power2_eq_square)
  finally show ?thesis using A by (simp add: field_simps)
qed

lemma abs_dot_le:
  assumes "length a = length b"
  shows "\<bar>dot a b\<bar> \<le> vec_norm a * vec_norm b"
proof -
  have "sqrt (dot a b * dot a b) \<le> sqrt (dot a a * dot b b)"
    using cauchy_schwarz [OF assms] by (rule real_sqrt_le_mono)
  then show ?thesis
    by (simp add: vec_norm_def real_sqrt_mult real_sqrt_abs2)
qed

lemma cos_sim_range:
  assumes len: "length a = length b" and s: "cos_sim a b = Num s"
  shows "-1 \<le> s \<and> s \<le> 1"
proof -
  from s have d: "vec_norm a * vec_norm b \<noteq> 0" and s: "s = dot a b / (vec_norm a * vec_norm b)"
    by (auto simp: cos_sim_def Let_def split: if_splits)
  have "0 \<le> vec_norm a" "0 \<le> vec_norm b"
    using dot_self_nonneg by (simp_all add: vec_norm_def)
  with d have pos: "0 < vec_norm a * vec_norm b"
    by (simp add: less_le)
  have "\<bar>dot a b\<bar> \<le> vec_norm a * vec_norm b" by (rule abs_dot_le [OF len])
  with pos s show ?thesis
    by (auto simp: abs_le_iff divide_le_eq le_divide_eq)
qed

text \<open>
  C16. A numeric cosine similarity lies in \<open>[-1, 1]\<close> (Cauchy--Schwarz on the
  embedding lists).
\<close>

theorem cosine_similarity_bounds:
  assumes "cosine_similarity a b = Inr (Num s)"
  shows "-1 \<le> s \<and> s \<le> 1"
  using assms cos_sim_range [of a b s] by (simp add: cosine_similarity_def split: if_splits)

lemma vec_norm_zero_iff: "vec_norm a = 0 \<longleftrightarrow> dot a a = 0"
  by (simp add: vec_norm_def)

lemma cos_sim_self: "vec_norm a \<noteq> 0 \<Longrightarrow> cos_sim a a = Num 1"
proof -
  assume nz: "vec_norm a \<noteq> 0"
  have "vec_norm a * vec_norm a = dot a a"
    using dot_self_nonneg [of a] by (simp add: vec_norm_def)
  moreover have "dot a a \<noteq> 0" using nz by (simp add: vec_norm_zero_iff)
  ultimately show ?thesis
    by (simp add: cos_sim_def Let_def)
qed

text \<open>
  C26. An embedding of non-zero norm has similarity 1 with itself, and similarity 0
  with an orthogonal embedding of non-zero norm and the same length.
\<close>

theorem cosine_similarity_self_orthogonal:
  assumes "vec_norm a \<noteq> 0" "vec_norm b \<noteq> 0" "length b = length a" "dot a b = 0"
  shows "cosine_similarity a a = Inr (Num 1) \<and> cosine_similarity a b = Inr (Num 0)"
  using assms cos_sim_self [OF assms(1)]
  by (simp add: cosine_similarity_def cos_sim_def [of a b])

subsection \<open>Matching properties\<close>

lemma cos_sim_le_one:
  "length k = length probe \<Longrightarrow> cos_sim probe k = Num y \<Longrightarrow> y \<le> 1"
  using cos_sim_range [of probe k y] by simp

text \<open>
  C25. A probe equal to the reference embedding of entry \<open>i\<close> (non-zero norm) is
  matched to entry \<open>i\<close>, provided no earlier entry also has similarity 1 with it.
\<close>

theorem match_face_self:
  assumes dims: "\<forall>k\<in>set (fst R). length k = length probe"
    and len: "length (snd R) = length (fst R)"
    and i: "i < length (fst R)" "fst R ! i = probe"
    and nz: "vec_norm probe \<noteq> 0"
    and first: "\<forall>j<i. cos_sim probe (fst R ! j) \<noteq> Num 1"
  shows "match_face R probe = Inr (Some (snd R ! i))"
proof -
  let ?ss = "map (cos_sim probe) (fst R)"
  have self: "cos_sim probe probe = Num 1"
    using nz by (rule cos_sim_self)
  have "Num 1 \<in> set ?ss"
    using i self by (metis length_map nth_map nth_mem)
  then have one: "(1::real) \<in> set (-1 # num_scores ?ss)"
    by (simp add: in_num_scores)
  have le: "\<forall>y\<in>set (-1 # num_scores ?ss). y \<le> 1"
  proof
    fix y assume "y \<in> set (-1 # num_scores ?ss)"
    then have "y = -1 \<or> Num y \<in> set ?ss" by (auto simp: in_num_scores)
    then show "y \<le> 1"
    proof
      assume "Num y \<in> set ?ss"
      then obtain k where "k \<in> set (fst R)" "cos_sim probe k = Num y" by auto
      with dims show ?thesis by (metis cos_sim_le_one)
    qed simp
  qed
  have best: "best_score probe (fst R) = 1"
    unfolding best_score_def by (rule Max_eqI) (use one le in auto)
  have "best_index probe (fst R) = Some i"
    using i self first by (simp add: best_index_def best first_index_Some)
  with best show ?thesis
    using match_face_spec [OF dims len] by (simp add: match_spec_def match_threshold_def)
qed

lemma num_scores_zero_probe:
  "vec_norm probe = 0 \<Longrightarrow> num_scores (map (cos_sim probe) ks) = []"
  by (induction ks) (simp_all add: cos_sim_def)

text \<open>
  C27. A probe of zero norm matches no one and raises nothing: every similarity is
  numpy's NaN (\<open>0/0\<close>), which never compares greater, so the best score stays at its
  initial \<open>-1\<close>.
\<close>

theorem match_face_zero_probe:
  assumes dims: "\<forall>k\<in>set (fst R). length k = length probe"
    and len: "length (snd R) = length (fst R)"
    and z: "vec_norm probe = 0"
  shows "match_face R probe = Inr None \<and> (\<forall>k\<in>set (fst R). cosine_similarity probe k = Inr NaN)"
proof
  from z have "best_score probe (fst R) = -1"
    by (simp add: best_score_def num_scores_zero_probe)
  then show "match_face R probe = Inr None"
    using match_face_spec [OF dims len] by (simp add: match_spec_def match_threshold_def)
  show "\<forall>k\<in>set (fst R). cosine_similarity probe k = Inr NaN"
    using dims z by (simp add: cosine_similarity_def cos_sim_def)
qed

text \<open>
  C2. Refinement: for a roster of parallel lists, \<open>match_face\<close> returns the abstract
  match (the first entry of maximal similarity if that similarity exceeds 0.5, else
  none) when every reference embedding has the probe's length, and raises ValueError
  otherwise.
\<close>

theorem match_face_refines:
  assumes len: "length (snd R) = length (fst R)"
  shows "match_face R probe =
    (if \<forall>k\<in>set (fst R). length k = length probe then Inr (match_spec R probe) else Inl ValueError)"
proof (cases "\<forall>k\<in>set (fst R). length k = length probe")
  case True
  then show ?thesis using match_face_spec [OF True len] by simp
next
  case False
  then show ?thesis by (simp add: match_face_def best_match_loop_dim_error)
qed

subsection \<open>Witnesses\<close>

lemma match_face_refines_witness:
  "length (snd ([[1, 0], [0, 1]], [(''Alice'', ''1''), (''Bob'', ''2'')])) = length (fst ([[1::real, 0], [0, 1]], [(''Alice'', ''1''), (''Bob'', ''2'')]))
   \<and> match_face ([[1, 0], [0, 1]], [(''Alice'', ''1''), (''Bob'', ''2'')]) [1, 0]
     = Inr (match_spec ([[1, 0], [0, 1]], [(''Alice'', ''1''), (''Bob'', ''2'')]) [1, 0])"
proof -
  have d: "\<forall>k\<in>set (fst ([[1::real, 0], [0, 1]], [(''Alice'', ''1''), (''Bob'', ''2'')])). length k = length [1::real, 0]"
    by simp
  have l: "length (snd ([[1, 0], [0, 1]], [(''Alice'', ''1''), (''Bob'', ''2'')])) = length (fst ([[1::real, 0], [0, 1]], [(''Alice'', ''1''), (''Bob'', ''2'')]))"
    by simp
  show ?thesis using l d match_face_refines [OF l, of "[1, 0]"] by simp
qed

lemma match_face_sound_witness:
  "match_face ([[1, 0], [0, 1]], [(''Alice'', ''1''), (''Bob'', ''2'')]) [1, 0] = Inr (Some (''Alice'', ''1''))
   \<and> match_threshold < best_score [1, 0] [[1, 0], [0, 1]]"
proof -
  have m: "match_face ([[1, 0], [0, 1]], [(''Alice'', ''1''), (''Bob'', ''2'')]) [1, 0] = Inr (Some (''Alice'', ''1''))"
    by (simp add: match_face_def cosine_similarity_def cos_sim_def vec_norm_def dot_def
        match_threshold_def py_get_def)
  have l: "length (snd ([[1::real, 0], [0, 1]], [(''Alice'', ''1''), (''Bob'', ''2'')])) = length (fst ([[1::real, 0], [0, 1]], [(''Alice'', ''1''), (''Bob'', ''2'')]))"
    by simp
  show ?thesis using m match_face_sound [OF m l] by (auto simp only: fst_conv)
qed

lemma cosine_similarity_bounds_witness:
  "cosine_similarity [1, 0] [1, 1] = Inr (Num (1 / sqrt 2)) \<and> -1 \<le> 1 / sqrt (2::real) \<and> 1 / sqrt (2::real) \<le> 1"
proof -
  have c: "cosine_similarity [1, 0] [1, 1] = Inr (Num (1 / sqrt 2))"
    by (simp add: cosine_similarity_def cos_sim_def vec_norm_def dot_def)
  show ?thesis using c cosine_similarity_bounds [OF c] by simp
qed

lemma cosine_similarity_self_orthogonal_witness:
  "cosine_similarity [1, 0] [1, 0] = Inr (Num 1) \<and> cosine_similarity [1, 0] [0, 1] = Inr (Num 0)"
proof -
  have "vec_norm [1, 0] \<noteq> 0" "vec_norm [0, 1] \<noteq> 0" "length [0::real, 1] = length [1::real, 0]"
    "dot [1, 0] [0, 1] = 0"
    by (simp_all add: vec_norm_def dot_def)
  then show ?thesis by (rule cosine_similarity_self_orthogonal)
qed

lemma match_face_self_witness:
  "match_face ([[0, 1], [1, 0]], [(''Bob'', ''2''), (''Alice'', ''1'')]) [1, 0] = Inr (Some (''Alice'', ''1''))"
proof -
  have d: "\<forall>k\<in>set (fst ([[0::real, 1], [1, 0]], [(''Bob'', ''2''), (''Alice'', ''1'')])). length k = length [1::real, 0]"
    by simp
  have l: "length (snd ([[0::real, 1], [1, 0]], [(''Bob'', ''2''), (''Alice'', ''1'')])) = length (fst ([[0::real, 1], [1, 0]], [(''Bob'', ''2''), (''Alice'', ''1'')]))"
    by simp
  have i: "1 < length (fst ([[0::real, 1], [1, 0]], [(''Bob'', ''2''), (''Alice'', ''1'')]))"
    "fst ([[0::real, 1], [1, 0]], [(''Bob'', ''2''), (''Alice'', ''1'')]) ! 1 = [1, 0]"
    by simp_all
  have n: "vec_norm [1, 0] \<noteq> 0" by (simp add: vec_norm_def dot_def)
  have f: "\<forall>j<1. cos_sim [1, 0] (fst ([[0::real, 1], [1, 0]], [(''Bob'', ''2''), (''Alice'', ''1'')]) ! j) \<noteq> Num 1"
    by (simp add: cos_sim_def vec_norm_def dot_def)
  show ?thesis using match_face_self [OF d l i n f] by simp
qed

lemma match_face_zero_probe_witness:
  "match_face ([[1, 0], [0, 1]], [(''Alice'', ''1''), (''Bob'', ''2'')]) [0, 0] = Inr None
   \<and> cosine_similarity [0, 0] [1, 0] = Inr NaN"
proof -
  have d: "\<forall>k\<in>set (fst ([[1::real, 0], [0, 1]], [(''Alice'', ''1''), (''Bob'', ''2'')])). length k = length [0::real, 0]"
    by simp
  have l: "length (snd ([[1::real, 0], [0, 1]], [(''Alice'', ''1''), (''Bob'', ''2'')])) = length (fst ([[1::real, 0], [0, 1]], [(''Alice'', ''1''), (''Bob'', ''2'')]))"
    by simp
  have z: "vec_norm [0, 0] = 0" by (simp add: vec_norm_def dot_def)
  show ?thesis using match_face_zero_probe [OF d l z] by simp
qed

end
