(* ===== verification/Session.thy ===== *)
theory Session
  imports Matcher
begin

text \<open>
  The attendance session of \<open>main.py\<close>: \<open>mark_attendance\<close> (lines 42--80). It reloads
  the roster, runs the face model once on the class photo, matches every detected face
  in detection order (collecting matched identities in a set and moving the progress
  bar after each face), then writes \<open>Attendance/Attendance_<date>.csv\<close> with a header
  row and one row per recognised student sorted by numeric roll, and returns the number
  of students.

  State: the two directories the program touches, \<open>known_faces\<close> (a listing, see
  \<open>Roster\<close>) and \<open>Attendance\<close> (a map from file name to the CSV rows written there).
  The clock reading \<open>datetime.now()\<close> is an input. The class photo is passed already
  decoded (\<open>browse_image\<close> in \<open>Gui\<close> models the \<open>None\<close> of line 45); \<open>imread\<close> and
  \<open>detect\<close> are the parameters of \<open>load_known_faces\<close>, passed through. The set \<open>recognized_students\<close> is
  kept as the list of its elements in insertion order; the order in which Python
  iterates it (hash-dependent) is a parameter \<open>set_iter\<close>, a permutation of that list.
\<close>

record 'file store =
  known_faces :: "'file known_dir"
  attendance_files :: "string \<Rightarrow> string list list option"

record datetime =
  year :: nat
  month :: nat
  day :: nat
  hour :: nat
  minute :: nat
  second :: nat

subsection \<open>Per-face matching and progress (lines 48--66)\<close>

text \<open>Line 65: \<open>progress_bar['value'] = ((i + 1) / total) * 100\<close>.\<close>

definition progress_value :: "nat \<Rightarrow> nat \<Rightarrow> real" where
  "progress_value i n_faces = real (Suc i) / real n_faces * 100"

text \<open>Line 63: \<open>recognized_students.add((name, roll))\<close>.\<close>

definition add_match :: "identity option \<Rightarrow> identity list \<Rightarrow> identity list" where
  "add_match m rec = (case m of None \<Rightarrow> rec | Some d \<Rightarrow> List.insert d rec)"

text \<open>The loop over \<open>enumerate(faces)\<close>: the progress values set so far, and the set
  of recognised students or the exception that left the loop.\<close>

fun recognize_loop ::
  "roster \<Rightarrow> nat \<Rightarrow> nat \<Rightarrow> embedding list \<Rightarrow> identity list \<Rightarrow> real list \<times> identity list py" where
  "recognize_loop R n_faces i [] rec = ([], Inr rec)"
| "recognize_loop R n_faces i (face # faces) rec =
     (case match_face R face of
        Inl e \<Rightarrow> ([], Inl e)
      | Inr m \<Rightarrow>
          (let (ps, r) = recognize_loop R n_faces (Suc i) faces (add_match m rec)
           in (progress_value i n_faces # ps, r)))"

subsection \<open>The attendance file (lines 68--78)\<close>

text \<open>\<open>strftime('%Y-%m-%d')\<close> and \<open>strftime('%H:%M:%S')\<close> as glibc computes them: the
  year in decimal without padding, the other fields zero-padded to two digits.\<close>

definition date_str :: "datetime \<Rightarrow> string" where
  "date_str now =
     nat_str (year now) @ CHR ''-'' # zfill 2 (nat_str (month now))
       @ CHR ''-'' # zfill 2 (nat_str (day now))"

definition time_str :: "datetime \<Rightarrow> string" where
  "time_str now =
     zfill 2 (nat_str (hour now)) @ CHR '':'' # zfill 2 (nat_str (minute now))
       @ CHR '':'' # zfill 2 (nat_str (second now))"

text \<open>Line 71: \<open>filename = f"Attendance_{date_str}.csv"\<close>.\<close>

definition attendance_filename :: "datetime \<Rightarrow> string" where
  "attendance_filename now = ''Attendance_'' @ date_str now @ ''.csv''"

definition csv_header :: "string list" where
  "csv_header = [''Name'', ''Roll No'', ''Date'', ''Time'']"

text \<open>Lines 76--78: the header row, then one row per student in
  \<open>sorted(recognized_students, key=lambda x: int(x[1]))\<close>, all with the same date and
  time.\<close>

definition attendance_rows :: "datetime \<Rightarrow> identity list \<Rightarrow> string list list py" where
  "attendance_rows now students =
     (case py_sorted_key (\<lambda>x. py_int_raise (snd x)) students of
        Inl e \<Rightarrow> Inl e
      | Inr sorted_students \<Rightarrow>
          Inr (csv_header # map (\<lambda>(name, roll). [name, roll, date_str now, time_str now]) sorted_students))"

text \<open>Lines 71--78. The file is opened for writing (truncated) and the header written
  before the rows are sorted, so if \<open>int(x[1])\<close> raises, the file is left holding
  the header only and the exception propagates.\<close>

definition write_attendance ::
  "'file store \<Rightarrow> datetime \<Rightarrow> identity list \<Rightarrow> 'file store \<times> unit py" where
  "write_attendance st now students =
     (let (content, w) = (case attendance_rows now students of
                            Inl e \<Rightarrow> ([csv_header], Inl e)
                          | Inr rows \<Rightarrow> (rows, Inr ()))
      in (st\<lparr>attendance_files := (attendance_files st)(attendance_filename now \<mapsto> content)\<rparr>, w))"

subsection \<open>\<open>mark_attendance\<close>\<close>

text \<open>The whole function: the store after the run, the progress values shown, and the
  count returned or the exception raised.\<close>

definition mark_attendance ::
  "('file \<Rightarrow> 'img option) \<Rightarrow> ('img \<Rightarrow> embedding list) \<Rightarrow> (identity list \<Rightarrow> identity list)
   \<Rightarrow> 'file store \<Rightarrow> 'img \<Rightarrow> datetime \<Rightarrow> 'file store \<times> real list \<times> nat py" where
  "mark_attendance imread detect set_iter st img now =
     (case load_known_faces imread detect (known_faces st) of
        Inl e \<Rightarrow> (st, [], Inl e)
      | Inr R \<Rightarrow>
          (let faces = detect img;
               (ps, r) = recognize_loop R (length faces) 0 faces []
           in case r of
                Inl e \<Rightarrow> (st, ps, Inl e)
              | Inr rec \<Rightarrow>
                  (let (st', w) = write_attendance st now (set_iter rec)
                   in (st', ps, case w of Inl e \<Rightarrow> Inl e | Inr _ \<Rightarrow> Inr (length rec)))))"


subsection \<open>The recognition loop\<close>

text \<open>The loop either matches every face, moving the progress bar once per face and adding
  each match to the set, or stops at the first face whose matching raises.\<close>
lemma recognize_loop_ok:
  "map_py (match_face R) faces = Inr ms \<Longrightarrow>
   recognize_loop R n i faces rec = (map (\<lambda>j. progress_value j n) [i..<i + length faces], Inr (fold add_match ms rec))"
proof (induction faces arbitrary: ms i rec)
  case Nil
  then show ?case by simp
next
  case (Cons f faces)
  from Cons.prems obtain m ms' where m: "match_face R f = Inr m" and ms': "map_py (match_face R) faces = Inr ms'"
    and ms: "ms = m # ms'"
    by (auto split: sum.splits)
  have "[i..<i + length (f # faces)] = i # [Suc i..<Suc i + length faces]"
    by (simp add: upt_rec)
  with Cons.IH [OF ms'] m ms show ?case by simp
qed

lemma recognize_loop_error:
  "map_py (match_face R) faces = Inl e \<Longrightarrow> \<exists>ps. recognize_loop R n i faces rec = (ps, Inl e)"
proof (induction faces arbitrary: i rec)
  case Nil
  then show ?case by simp
next
  case (Cons f faces)
  show ?case
  proof (cases "match_face R f")
    case (Inl e')
    with Cons.prems show ?thesis by simp
  next
    case (Inr m)
    with Cons.prems have "map_py (match_face R) faces = Inl e" by (simp split: sum.splits)
    then obtain ps where "recognize_loop R n (Suc i) faces (add_match m rec) = (ps, Inl e)"
      using Cons.IH by blast
    with Inr show ?thesis by simp
  qed
qed

lemma set_fold_add_match:
  "set (fold add_match ms rec) = set rec \<union> {d. Some d \<in> set ms}"
  by (induction ms arbitrary: rec) (auto simp: add_match_def split: option.splits)

lemma distinct_fold_add_match:
  "distinct rec \<Longrightarrow> distinct (fold add_match ms rec)"
  by (induction ms arbitrary: rec) (auto simp: add_match_def split: option.splits)

lemma progress_values:
  assumes "0 < n"
  shows "sorted_wrt (<) (map (\<lambda>j. progress_value j n) [0..<n])"
    and "last (map (\<lambda>j. progress_value j n) [0..<n]) = 100"
    and "\<forall>p\<in>set (map (\<lambda>j. progress_value j n) [0..<n]). 0 < p \<and> p \<le> 100"
proof -
  show "sorted_wrt (<) (map (\<lambda>j. progress_value j n) [0..<n])"
    using assms by (auto simp: sorted_wrt_map progress_value_def sorted_wrt_iff_nth_less divide_strict_right_mono)
  show "last (map (\<lambda>j. progress_value j n) [0..<n]) = 100"
    using assms by (simp add: last_map progress_value_def)
  show "\<forall>p\<in>set (map (\<lambda>j. progress_value j n) [0..<n]). 0 < p \<and> p \<le> 100"
    using assms by (auto simp: progress_value_def divide_le_eq)
qed

subsection \<open>A successful run\<close>

lemma match_face_in_roster:
  assumes len: "length (snd R) = length (fst R)" and m: "match_face R f = Inr (Some d)"
  shows "d \<in> set (snd R)"
proof -
  obtain r where "best_match_loop f 0 (fst R) (-1, -1) = Inr r"
    using m by (auto simp: match_face_def split: sum.splits)
  then have dims: "\<forall>k\<in>set (fst R). length k = length f"
    by (rule best_match_loop_dims)
  have "match_spec R f = Some d"
    using m match_face_spec [OF dims len] by simp
  then obtain i where "best_index f (fst R) = Some i" "d = snd R ! i"
    by (auto simp: match_spec_def split: if_splits)
  moreover from this(1) have "i < length (fst R)"
    by (simp add: best_index_def first_index_Some)
  ultimately show ?thesis using len by simp
qed

lemma attendance_rows_ok:
  assumes "\<forall>d\<in>set students. py_int (snd d) \<noteq> None"
  shows "attendance_rows now students =
    Inr (csv_header # map (\<lambda>(name, roll). [name, roll, date_str now, time_str now]) (sort_key roll_int students))"
proof -
  have "\<forall>x\<in>set students. py_int_raise (snd x) = Inr (roll_int x)"
    using assms by (auto simp: py_int_raise_def roll_int_def split: option.splits)
  then have "py_sorted_key (\<lambda>x. py_int_raise (snd x)) students = Inr (sort_key roll_int students)"
    by (rule py_sorted_key_ok)
  then show ?thesis
    by (simp add: attendance_rows_def)
qed

lemma mark_attendance_run:
  assumes load: "load_known_faces imread detect (known_faces st) = Inr R"
    and ms: "map_py (match_face R) (detect img) = Inr ms"
  shows "mark_attendance imread detect set_iter st img now =
    (fst (write_attendance st now (set_iter (fold add_match ms []))),
     map (\<lambda>j. progress_value j (length (detect img))) [0..<length (detect img)],
     case snd (write_attendance st now (set_iter (fold add_match ms []))) of
       Inl e \<Rightarrow> Inl e | Inr _ \<Rightarrow> Inr (length (fold add_match ms [])))"
  using recognize_loop_ok [OF ms, of "length (detect img)" 0 "[]"] load
  by (simp add: mark_attendance_def Let_def case_prod_beta)

lemma matched_set:
  "map_py (match_face R) faces = Inr ms \<Longrightarrow>
   {d. Some d \<in> set ms} = {d. \<exists>f\<in>set faces. match_face R f = Inr (Some d)}"
proof -
  assume "map_py (match_face R) faces = Inr ms"
  then have all: "\<forall>x\<in>set faces. match_face R x = Inr (projr (match_face R x))"
    and ms: "ms = map (\<lambda>x. projr (match_face R x)) faces"
    by (auto simp: map_py_Inr_iff)
  have "Some d \<in> set ms \<longleftrightarrow> (\<exists>f\<in>set faces. match_face R f = Inr (Some d))" for d
  proof
    assume "Some d \<in> set ms"
    then obtain f where f: "f \<in> set faces" "projr (match_face R f) = Some d"
      using ms by auto
    with all have "match_face R f = Inr (Some d)" by metis
    with f(1) show "\<exists>f\<in>set faces. match_face R f = Inr (Some d)" by blast
  next
    assume "\<exists>f\<in>set faces. match_face R f = Inr (Some d)"
    then show "Some d \<in> set ms" using ms by force
  qed
  then show ?thesis by blast
qed

lemma write_attendance_ok:
  "attendance_rows now students = Inr rows \<Longrightarrow>
   write_attendance st now students =
     (st\<lparr>attendance_files := (attendance_files st)(attendance_filename now \<mapsto> rows)\<rparr>, Inr ())"
  by (simp add: write_attendance_def)

lemma mark_attendance_matches:
  assumes load: "load_known_faces imread detect (known_faces st) = Inr R"
    and run: "mark_attendance imread detect set_iter st img now = (st', ps, Inr n)"
  obtains ms where "map_py (match_face R) (detect img) = Inr ms"
proof (cases "map_py (match_face R) (detect img)")
  case (Inl e)
  then obtain ps' where "recognize_loop R (length (detect img)) 0 (detect img) [] = (ps', Inl e)"
    using recognize_loop_error by blast
  with load run show ?thesis by (simp add: mark_attendance_def)
next
  case (Inr ms)
  then show ?thesis by (rule that)
qed

lemma recognized_rolls:
  assumes load: "load_known_faces imread detect dir = Inr R"
    and ms: "map_py (match_face R) faces = Inr ms"
    and perm: "set ids = set (fold add_match ms [])"
  shows "\<forall>d\<in>set ids. py_int (snd d) \<noteq> None"
proof -
  have wf: "roster_wf R" using load by (rule loaded_roster_wf)
  then have len: "length (snd R) = length (fst R)" by (simp add: roster_wf_def)
  have "\<forall>d\<in>set ids. d \<in> set (snd R)"
  proof
    fix d assume "d \<in> set ids"
    then obtain f where "match_face R f = Inr (Some d)"
      using perm matched_set [OF ms] by (auto simp: set_fold_add_match)
    then show "d \<in> set (snd R)" by (rule match_face_in_roster [OF len])
  qed
  moreover have "\<forall>d\<in>set (snd R). py_int (snd d) \<noteq> None"
    using wf by (auto simp: roster_wf_def list_all_iff case_prod_beta)
  ultimately show ?thesis by blast
qed

lemma mark_attendance_ok:
  assumes load: "load_known_faces imread detect (known_faces st) = Inr R"
    and ms: "map_py (match_face R) (detect img) = Inr ms"
    and iter: "\<forall>xs. mset (set_iter xs) = mset xs"
  shows "mark_attendance imread detect set_iter st img now =
    (st\<lparr>attendance_files := (attendance_files st)(attendance_filename now \<mapsto>
        csv_header # map (\<lambda>(name, roll). [name, roll, date_str now, time_str now])
          (sort_key roll_int (set_iter (fold add_match ms []))))\<rparr>,
     map (\<lambda>j. progress_value j (length (detect img))) [0..<length (detect img)],
     Inr (length (fold add_match ms [])))"
proof -
  have "mset (set_iter (fold add_match ms [])) = mset (fold add_match ms [])" using iter by simp
  then have "set_mset (mset (set_iter (fold add_match ms []))) = set_mset (mset (fold add_match ms []))"
    by (rule arg_cong)
  then have "set (set_iter (fold add_match ms [])) = set (fold add_match ms [])" by simp
  from recognized_rolls [OF load ms this] have
    "write_attendance st now (set_iter (fold add_match ms [])) =
      (st\<lparr>attendance_files := (attendance_files st)(attendance_filename now \<mapsto>
        csv_header # map (\<lambda>(name, roll). [name, roll, date_str now, time_str now])
          (sort_key roll_int (set_iter (fold add_match ms []))))\<rparr>, Inr ())"
    by (intro write_attendance_ok attendance_rows_ok)
  then show ?thesis
    using mark_attendance_run [OF load ms, of set_iter now] by simp
qed

lemma mark_attendance_Inr_load:
  assumes "mark_attendance imread detect set_iter st img now = (st', ps, Inr n)"
  obtains R where "load_known_faces imread detect (known_faces st) = Inr R"
  using assms by (cases "load_known_faces imread detect (known_faces st)") (auto simp: mark_attendance_def)

subsection \<open>What a run changes\<close>

text \<open>Whatever the input, a run either leaves the store alone or overwrites the one file
  named after the date, with contents that do not depend on the store's other files.\<close>

lemma write_attendance_effect:
  obtains content w where
    "\<And>st0. write_attendance st0 now ids =
       (st0\<lparr>attendance_files := (attendance_files st0)(attendance_filename now \<mapsto> content)\<rparr>, w)"
proof -
  obtain content w where cw: "(case attendance_rows now ids of
      Inl e \<Rightarrow> ([csv_header], Inl e) | Inr rows \<Rightarrow> (rows, Inr ())) = (content, w)"
    by (metis surj_pair)
  show ?thesis
    by (rule that [of content w]) (simp add: write_attendance_def cw)
qed

lemma mark_attendance_effect:
  obtains c ps r where
    "\<And>st0. known_faces st0 = known_faces (st :: 'file store) \<Longrightarrow> mark_attendance imread detect set_iter st0 img now =
       (case c of None \<Rightarrow> st0
        | Some rows \<Rightarrow> st0\<lparr>attendance_files := (attendance_files st0)(attendance_filename now \<mapsto> rows)\<rparr>,
        ps, r)"
    and "(\<exists>n. r = Inr n) \<Longrightarrow> c \<noteq> None"
proof (cases "load_known_faces imread detect (known_faces st)")
  case (Inl e)
  show ?thesis
    by (rule that [of None "[]" "Inl e"]) (simp_all add: mark_attendance_def Inl)
next
  case (Inr R)
  obtain ps r0 where loop: "recognize_loop R (length (detect img)) 0 (detect img) [] = (ps, r0)"
    by (metis surj_pair)
  show ?thesis
  proof (cases r0)
    case (Inl e)
    show ?thesis
      by (rule that [of None ps "Inl e"]) (simp_all add: mark_attendance_def Inr loop Inl)
  next
    case (Inr rec)
    obtain content w where wr: "\<And>st0 :: 'file store. write_attendance st0 now (set_iter rec) =
       (st0\<lparr>attendance_files := (attendance_files st0)(attendance_filename now \<mapsto> content)\<rparr>, w)"
      using write_attendance_effect by blast
    show ?thesis
      by (rule that [of "Some content" ps "case w of Inl e \<Rightarrow> Inl e | Inr _ \<Rightarrow> Inr (length rec)"])
        (simp_all add: mark_attendance_def \<open>load_known_faces imread detect (known_faces st) = Inr R\<close> loop Inr wr)
  qed
qed

subsection \<open>Reading the date back from the file name\<close>

lemma zfill_nat_str_digits: "c \<in> set (zfill k (nat_str n)) \<Longrightarrow> py_isdigit c"
  using nat_str_digits by (auto simp: zfill_def py_isdigit_def)

lemma date_str_parse:
  "map py_int (split_on CHR ''-'' (date_str now)) = [Some (int (year now)), Some (int (month now)), Some (int (day now))]"
proof -
  have nd: "CHR ''-'' \<notin> set (zfill k (nat_str n))" "CHR ''-'' \<notin> set (nat_str n)" for k n
    using zfill_nat_str_digits nat_str_digits digit_not_special by blast+
  show ?thesis
    by (simp add: date_str_def nd py_simps)
qed


subsection \<open>Concrete runs used by the witnesses\<close>

lemma demo_load:
  "load_known_faces Some id [(''Alice_1.jpg'', [[1, 0]]), (''Bob_2.jpg'', [[0, 1 :: real]])]
   = Inr ([[1, 0], [0, 1]], [(''Alice'', ''1''), (''Bob'', ''2'')])"
  by code_simp

lemma demo_match:
  "match_face ([[1, 0], [0, 1 :: real]], [(''Alice'', ''1''), (''Bob'', ''2'')]) [1, 0] = Inr (Some (''Alice'', ''1''))"
  "match_face ([[1, 0], [0, 1 :: real]], [(''Alice'', ''1''), (''Bob'', ''2'')]) [0, 1] = Inr (Some (''Bob'', ''2''))"
  "match_face ([[1, 0], [0, 1 :: real]], [(''Alice'', ''1''), (''Bob'', ''2'')]) [1, 0, 0] = Inl ValueError"
  by (simp_all add: match_face_def cosine_similarity_def cos_sim_def vec_norm_def dot_def
      match_threshold_def py_get_def)

lemma demo_rolls:
  "roll_int (''Alice'', ''1'') = 1" "roll_int (''Bob'', ''2'') = 2"
  by (simp_all add: roll_int_def) code_simp+

lemma iter_id: "\<forall>xs. mset (id xs) = mset xs" by simp
lemma iter_rev: "\<forall>xs. mset (rev xs) = mset xs" by simp

lemma triple_eta: "snd (snd x) = r \<Longrightarrow> x = (fst x, fst (snd x), r)"
  by (cases x) auto

subsection \<open>Properties of a run\<close>

text \<open>C3. A run that returns a count has replaced the day's file by the header and one row
  per distinct recognised student, sorted by numeric roll, where the recognised students
  are exactly the identities some detected face was matched to; it has not touched the
  roster, returned the number of rows after the header, and moved the progress bar to
  \<open>(i+1)/n * 100\<close> after each of the n faces.\<close>

theorem mark_attendance_output:
  assumes load: "load_known_faces imread detect (known_faces st) = Inr R"
    and iter: "\<forall>xs. mset (set_iter xs) = mset xs"
    and run: "mark_attendance imread detect set_iter st img now = (st', ps, Inr n)"
  shows "\<exists>ids. attendance_files st' =
             (attendance_files st)(attendance_filename now \<mapsto>
                csv_header # map (\<lambda>(name, roll). [name, roll, date_str now, time_str now]) ids)
      \<and> known_faces st' = known_faces st
      \<and> n = length ids \<and> distinct ids \<and> sorted (map roll_int ids)
      \<and> set ids = {d. \<exists>f\<in>set (detect img). match_face R f = Inr (Some d)}
      \<and> ps = map (\<lambda>j. progress_value j (length (detect img))) [0..<length (detect img)]"
proof -
  have wf: "roster_wf R" using load by (rule loaded_roster_wf)
  then have len: "length (snd R) = length (fst R)" by (simp add: roster_wf_def)
  obtain ms where ms: "map_py (match_face R) (detect img) = Inr ms"
    using mark_attendance_matches [OF load run] by blast
  let ?rec = "fold add_match ms []"
  let ?ids = "sort_key roll_int (set_iter ?rec)"
  let ?rows = "csv_header # map (\<lambda>(name, roll). [name, roll, date_str now, time_str now]) ?ids"
  have set_rec: "set ?rec = {d. \<exists>f\<in>set (detect img). match_face R f = Inr (Some d)}"
    using matched_set [OF ms] by (simp add: set_fold_add_match)
  have dist: "distinct ?rec" by (simp add: distinct_fold_add_match)
  have perm: "mset (set_iter ?rec) = mset ?rec" using iter by simp
  then have "set_mset (mset (set_iter ?rec)) = set_mset (mset ?rec)" by (rule arg_cong)
  then have set_iter_set: "set (set_iter ?rec) = set ?rec" by simp
  have in_roster: "\<forall>d\<in>set (set_iter ?rec). d \<in> set (snd R)"
  proof
    fix d assume "d \<in> set (set_iter ?rec)"
    then obtain f where "match_face R f = Inr (Some d)"
      using set_iter_set set_rec by auto
    then show "d \<in> set (snd R)" by (rule match_face_in_roster [OF len])
  qed
  moreover have "\<forall>d\<in>set (snd R). py_int (snd d) \<noteq> None"
    using wf by (auto simp: roster_wf_def list_all_iff case_prod_beta)
  ultimately have rolls: "\<forall>d\<in>set (set_iter ?rec). py_int (snd d) \<noteq> None"
    by blast
  have w: "write_attendance st now (set_iter ?rec) =
      (st\<lparr>attendance_files := (attendance_files st)(attendance_filename now \<mapsto> ?rows)\<rparr>, Inr ())"
    using attendance_rows_ok [OF rolls] by (rule write_attendance_ok)
  have st': "st' = st\<lparr>attendance_files := (attendance_files st)(attendance_filename now \<mapsto> ?rows)\<rparr>"
    and ps: "ps = map (\<lambda>j. progress_value j (length (detect img))) [0..<length (detect img)]"
    and n: "n = length ?rec"
  proof -
    have "mark_attendance imread detect set_iter st img now =
      (st\<lparr>attendance_files := (attendance_files st)(attendance_filename now \<mapsto> ?rows)\<rparr>,
       map (\<lambda>j. progress_value j (length (detect img))) [0..<length (detect img)],
       Inr (length ?rec))"
      using mark_attendance_run [OF load ms, of set_iter now] unfolding w by simp
    with run show "st' = st\<lparr>attendance_files := (attendance_files st)(attendance_filename now \<mapsto> ?rows)\<rparr>"
      and "ps = map (\<lambda>j. progress_value j (length (detect img))) [0..<length (detect img)]"
      and "n = length ?rec"
      by simp_all
  qed
  have "size (mset (set_iter ?rec)) = size (mset ?rec)" using perm by (rule arg_cong)
  then have "length ?ids = length ?rec" by simp
  moreover have "distinct ?ids" using dist mset_eq_imp_distinct_iff [OF perm] by simp
  moreover have "set ?ids = set ?rec" using set_iter_set by simp
  moreover have "sorted (map roll_int ?ids)" by simp
  ultimately show ?thesis
    using st' ps n set_rec by (intro exI [of _ ?ids]) simp
qed

lemma mark_attendance_output_witness:
  "\<exists>ids. attendance_files (fst (mark_attendance Some id id
        \<lparr>known_faces = [(''Alice_1.jpg'', [[1, 0]]), (''Bob_2.jpg'', [[0, 1 :: real]])],
         attendance_files = Map.empty\<rparr> [[1, 0]]
        \<lparr>year = 2024, month = 5, day = 7, hour = 9, minute = 5, second = 3\<rparr>))
      (''Attendance_2024-05-07.csv'')
      = Some (csv_header # map (\<lambda>(name, roll). [name, roll, ''2024-05-07'', ''09:05:03'']) ids)
    \<and> set ids = {(''Alice'', ''1'')} \<and> length ids = 1"
proof -
  let ?st = "\<lparr>known_faces = [(''Alice_1.jpg'', [[1, 0]]), (''Bob_2.jpg'', [[0, 1 :: real]])],
         attendance_files = Map.empty\<rparr>"
  let ?now = "\<lparr>year = 2024, month = 5, day = 7, hour = 9, minute = 5, second = 3\<rparr>"
  let ?R = "([[1, 0], [0, 1 :: real]], [(''Alice'', ''1''), (''Bob'', ''2'')])"
  have l: "load_known_faces Some id (known_faces ?st) = Inr ?R" using demo_load by simp
  have ms: "map_py (match_face ?R) (id [[1, 0]]) = Inr [Some (''Alice'', ''1'')]"
    using demo_match by simp
  have run: "mark_attendance Some id id ?st [[1, 0]] ?now =
      (fst (mark_attendance Some id id ?st [[1, 0]] ?now), fst (snd (mark_attendance Some id id ?st [[1, 0]] ?now)), Inr 1)"
  proof -
    have "snd (snd (mark_attendance Some id id ?st [[1, 0]] ?now)) = Inr 1"
      by (subst mark_attendance_ok [OF l ms iter_id]) (simp add: add_match_def)
    then show ?thesis by (simp only: prod.collapse flip: \<open>snd (snd _) = _\<close>)
  qed
  have f: "attendance_filename ?now = ''Attendance_2024-05-07.csv''" by code_simp
  have d: "date_str ?now = ''2024-05-07''" by code_simp
  have t: "time_str ?now = ''09:05:03''" by code_simp
  show ?thesis
    using mark_attendance_output [OF l iter_id run] demo_match f d t by auto
qed

text \<open>C28. When the face model finds no face in the photo, a run over a readable roster
  writes the day's file with the header row only, shows no progress, and returns 0.\<close>

theorem mark_attendance_no_faces:
  assumes load: "load_known_faces imread detect (known_faces st) = Inr R"
    and iter: "\<forall>xs. mset (set_iter xs) = mset xs"
    and none: "detect img = []"
  shows "mark_attendance imread detect set_iter st img now =
    (st\<lparr>attendance_files := (attendance_files st)(attendance_filename now \<mapsto> [csv_header])\<rparr>, [], Inr 0)"
proof -
  have ms: "map_py (match_face R) (detect img) = Inr []" using none by simp
  have "set_iter [] = []" using iter by (metis mset_zero_iff)
  with mark_attendance_ok [OF load ms iter, of now] none show ?thesis by simp
qed

lemma mark_attendance_no_faces_witness:
  "mark_attendance Some id id
      \<lparr>known_faces = [(''Alice_1.jpg'', [[1, 0]]), (''Bob_2.jpg'', [[0, 1 :: real]])],
       attendance_files = Map.empty\<rparr> []
      \<lparr>year = 2024, month = 5, day = 7, hour = 9, minute = 5, second = 3\<rparr>
   = (\<lparr>known_faces = [(''Alice_1.jpg'', [[1, 0]]), (''Bob_2.jpg'', [[0, 1]])],
       attendance_files = [''Attendance_2024-05-07.csv'' \<mapsto> [csv_header]]\<rparr>, [], Inr 0)"
proof -
  have l: "load_known_faces Some id (known_faces \<lparr>known_faces = [(''Alice_1.jpg'', [[1, 0]]), (''Bob_2.jpg'', [[0, 1 :: real]])],
       attendance_files = Map.empty\<rparr>) = Inr ([[1, 0], [0, 1]], [(''Alice'', ''1''), (''Bob'', ''2'')])"
    using demo_load by simp
  have f: "attendance_filename \<lparr>year = 2024, month = 5, day = 7, hour = 9, minute = 5, second = 3\<rparr>
    = ''Attendance_2024-05-07.csv''" by code_simp
  show ?thesis
    by (subst mark_attendance_no_faces [OF l iter_id]) (simp_all add: f)
qed

text \<open>C9. Over a readable roster, when every detected face has the dimension of every
  stored embedding, a run returns a count: matching, sorting by roll and writing never
  raise.\<close>

theorem mark_attendance_total:
  assumes load: "load_known_faces imread detect (known_faces st) = Inr R"
    and iter: "\<forall>xs. mset (set_iter xs) = mset xs"
    and dims: "\<forall>f\<in>set (detect img). \<forall>k\<in>set (fst R). length k = length f"
  shows "\<exists>st' ps n. mark_attendance imread detect set_iter st img now = (st', ps, Inr n)"
proof -
  have len: "length (snd R) = length (fst R)"
    using loaded_roster_wf [OF load] by (simp add: roster_wf_def)
  have "\<forall>f\<in>set (detect img). match_face R f = Inr (match_spec R f)"
    using dims match_face_spec [OF _ len] by blast
  then have "map_py (match_face R) (detect img) = Inr (map (match_spec R) (detect img))"
    by (simp add: map_py_Inr_iff)
  from mark_attendance_ok [OF load this iter] show ?thesis by blast
qed

lemma mark_attendance_total_witness:
  "\<exists>st' ps n. mark_attendance Some id id
      \<lparr>known_faces = [(''Alice_1.jpg'', [[1, 0]]), (''Bob_2.jpg'', [[0, 1 :: real]])],
       attendance_files = Map.empty\<rparr> [[1, 0], [0, 1]]
      \<lparr>year = 2024, month = 5, day = 7, hour = 9, minute = 5, second = 3\<rparr> = (st', ps, Inr n)"
proof -
  have l: "load_known_faces Some id (known_faces \<lparr>known_faces = [(''Alice_1.jpg'', [[1, 0]]), (''Bob_2.jpg'', [[0, 1 :: real]])],
       attendance_files = Map.empty\<rparr>) = Inr ([[1, 0], [0, 1]], [(''Alice'', ''1''), (''Bob'', ''2'')])"
    using demo_load by simp
  show ?thesis
    by (rule mark_attendance_total [OF l iter_id]) simp
qed

text \<open>C29. In a run that returns a count on a photo with faces, the progress bar is set once
  per face, to strictly increasing values in (0, 100], the last one 100.\<close>

theorem mark_attendance_progress:
  assumes run: "mark_attendance imread detect set_iter st img now = (st', ps, Inr n)"
    and faces: "detect img \<noteq> []"
  shows "length ps = length (detect img) \<and> sorted_wrt (<) ps \<and> last ps = 100
    \<and> (\<forall>p\<in>set ps. 0 < p \<and> p \<le> 100)"
proof -
  obtain R where load: "load_known_faces imread detect (known_faces st) = Inr R"
    using mark_attendance_Inr_load [OF run] by blast
  obtain ms where ms: "map_py (match_face R) (detect img) = Inr ms"
    using mark_attendance_matches [OF load run] by blast
  have ps: "ps = map (\<lambda>j. progress_value j (length (detect img))) [0..<length (detect img)]"
    using run mark_attendance_run [OF load ms, of set_iter now] by (simp split: sum.splits)
  have "0 < length (detect img)" using faces by simp
  with ps progress_values [of "length (detect img)"] show ?thesis by simp
qed

lemma mark_attendance_progress_witness:
  "length (fst (snd (mark_attendance Some id id
      \<lparr>known_faces = [(''Alice_1.jpg'', [[1, 0]]), (''Bob_2.jpg'', [[0, 1 :: real]])],
       attendance_files = Map.empty\<rparr> [[1, 0], [0, 1]]
      \<lparr>year = 2024, month = 5, day = 7, hour = 9, minute = 5, second = 3\<rparr>))) = 2
   \<and> last (fst (snd (mark_attendance Some id id
      \<lparr>known_faces = [(''Alice_1.jpg'', [[1, 0]]), (''Bob_2.jpg'', [[0, 1 :: real]])],
       attendance_files = Map.empty\<rparr> [[1, 0], [0, 1]]
      \<lparr>year = 2024, month = 5, day = 7, hour = 9, minute = 5, second = 3\<rparr>))) = 100"
proof -
  let ?st = "\<lparr>known_faces = [(''Alice_1.jpg'', [[1, 0]]), (''Bob_2.jpg'', [[0, 1 :: real]])],
         attendance_files = Map.empty\<rparr>"
  let ?now = "\<lparr>year = 2024, month = 5, day = 7, hour = 9, minute = 5, second = 3\<rparr>"
  let ?R = "([[1, 0], [0, 1 :: real]], [(''Alice'', ''1''), (''Bob'', ''2'')])"
  have l: "load_known_faces Some id (known_faces ?st) = Inr ?R" using demo_load by simp
  have ms: "map_py (match_face ?R) (id [[1, 0], [0, 1]]) = Inr [Some (''Alice'', ''1''), Some (''Bob'', ''2'')]"
    using demo_match by simp
  have "snd (snd (mark_attendance Some id id ?st [[1, 0], [0, 1]] ?now)) = Inr 2"
    by (subst mark_attendance_ok [OF l ms iter_id]) (simp add: add_match_def)
  then have run: "mark_attendance Some id id ?st [[1, 0], [0, 1]] ?now =
      (fst (mark_attendance Some id id ?st [[1, 0], [0, 1]] ?now),
       fst (snd (mark_attendance Some id id ?st [[1, 0], [0, 1]] ?now)), Inr 2)"
    by (rule triple_eta)
  show ?thesis
    using mark_attendance_progress [OF run] by simp
qed

text \<open>C10. A run that raises (an unreadable roster, or a face whose dimension differs from a
  stored embedding) leaves both directories as they were.\<close>

theorem mark_attendance_error_unchanged:
  assumes run: "mark_attendance imread detect set_iter st img now = (st', ps, Inl e)"
    and iter: "\<forall>xs. mset (set_iter xs) = mset xs"
  shows "st' = st"
proof (cases "load_known_faces imread detect (known_faces st)")
  case (Inl e')
  with run show ?thesis by (simp add: mark_attendance_def)
next
  case (Inr R)
  show ?thesis
  proof (cases "map_py (match_face R) (detect img)")
    case (Inl e')
    then obtain ps' where "recognize_loop R (length (detect img)) 0 (detect img) [] = (ps', Inl e')"
      using recognize_loop_error by blast
    with Inr run show ?thesis by (simp add: mark_attendance_def)
  next
    case (Inr ms)
    with mark_attendance_ok [OF \<open>load_known_faces imread detect (known_faces st) = Inr R\<close> Inr iter] run
    show ?thesis by simp
  qed
qed

lemma mark_attendance_error_unchanged_witness:
  "fst (mark_attendance Some id id
      \<lparr>known_faces = [(''Alice_1.jpg'', [[1, 0]]), (''Bob_2.jpg'', [[0, 1 :: real]])],
       attendance_files = Map.empty\<rparr> [[1, 0, 0]]
      \<lparr>year = 2024, month = 5, day = 7, hour = 9, minute = 5, second = 3\<rparr>)
   = \<lparr>known_faces = [(''Alice_1.jpg'', [[1, 0]]), (''Bob_2.jpg'', [[0, 1 :: real]])],
       attendance_files = Map.empty\<rparr>"
proof -
  let ?st = "\<lparr>known_faces = [(''Alice_1.jpg'', [[1, 0]]), (''Bob_2.jpg'', [[0, 1 :: real]])],
         attendance_files = Map.empty\<rparr>"
  let ?now = "\<lparr>year = 2024, month = 5, day = 7, hour = 9, minute = 5, second = 3\<rparr>"
  have l: "load_known_faces Some id (known_faces ?st) = Inr ([[1, 0], [0, 1]], [(''Alice'', ''1''), (''Bob'', ''2'')])"
    using demo_load by simp
  have "snd (snd (mark_attendance Some id id ?st [[1, 0, 0]] ?now)) = Inl ValueError"
    using l demo_match by (simp add: mark_attendance_def)
  then have run: "mark_attendance Some id id ?st [[1, 0, 0]] ?now =
      (fst (mark_attendance Some id id ?st [[1, 0, 0]] ?now),
       fst (snd (mark_attendance Some id id ?st [[1, 0, 0]] ?now)), Inl ValueError)"
    by (rule triple_eta)
  show ?thesis
    by (rule mark_attendance_error_unchanged [OF run iter_id])
qed

text \<open>C11. Two successful runs on the same day leave the attendance directory as the second
  run alone would: the second run overwrites the day's file and no trace of the first
  remains.\<close>

theorem mark_attendance_last_run_wins:
  assumes run1: "mark_attendance imread detect set_iter st img1 now1 = (st1, ps1, r1)"
    and run2: "mark_attendance imread detect set_iter st1 img2 now2 = (st2, ps2, Inr n2)"
    and same_day: "attendance_filename now1 = attendance_filename now2"
  shows "attendance_files st2 = attendance_files (fst (mark_attendance imread detect set_iter st img2 now2))"
proof -
  obtain c1 ps r where e1: "\<And>st0. known_faces st0 = known_faces st \<Longrightarrow> mark_attendance imread detect set_iter st0 img1 now1 =
       (case c1 of None \<Rightarrow> st0
        | Some rows \<Rightarrow> st0\<lparr>attendance_files := (attendance_files st0)(attendance_filename now1 \<mapsto> rows)\<rparr>, ps, r)"
    and "(\<exists>n. r = Inr n) \<Longrightarrow> c1 \<noteq> None"
    by (rule mark_attendance_effect [where st = st and imread = imread and detect = detect and set_iter = set_iter
      and img = img1 and now = now1]) blast
  have st1: "st1 = (case c1 of None \<Rightarrow> st
        | Some rows \<Rightarrow> st\<lparr>attendance_files := (attendance_files st)(attendance_filename now1 \<mapsto> rows)\<rparr>)"
  proof -
    have "mark_attendance imread detect set_iter st img1 now1 = (case c1 of None \<Rightarrow> st
        | Some rows \<Rightarrow> st\<lparr>attendance_files := (attendance_files st)(attendance_filename now1 \<mapsto> rows)\<rparr>, ps, r)"
      by (rule e1) (rule refl)
    then show ?thesis using run1 by (simp only: prod.inject)
  qed
  then have kf: "known_faces st1 = known_faces st" by (cases c1) simp_all
  obtain c2 ps' r' where e2: "\<And>st0. known_faces st0 = known_faces st1 \<Longrightarrow> mark_attendance imread detect set_iter st0 img2 now2 =
       (case c2 of None \<Rightarrow> st0
        | Some rows \<Rightarrow> st0\<lparr>attendance_files := (attendance_files st0)(attendance_filename now2 \<mapsto> rows)\<rparr>, ps', r')"
    and written: "(\<exists>n. r' = Inr n) \<Longrightarrow> c2 \<noteq> None"
    by (rule mark_attendance_effect [where st = st1 and imread = imread and detect = detect and set_iter = set_iter
      and img = img2 and now = now2]) blast
  have "mark_attendance imread detect set_iter st1 img2 now2 = (case c2 of None \<Rightarrow> st1
        | Some rows \<Rightarrow> st1\<lparr>attendance_files := (attendance_files st1)(attendance_filename now2 \<mapsto> rows)\<rparr>, ps', r')"
    by (rule e2) (rule refl)
  then have run2': "st2 = (case c2 of None \<Rightarrow> st1
        | Some rows \<Rightarrow> st1\<lparr>attendance_files := (attendance_files st1)(attendance_filename now2 \<mapsto> rows)\<rparr>) \<and> r' = Inr n2"
    using run2 by (simp only: prod.inject)
  then have "r' = Inr n2" by (rule conjunct2)
  with written obtain rows2 where c2: "c2 = Some rows2" by auto
  have "attendance_files st2 = (attendance_files st1)(attendance_filename now2 \<mapsto> rows2)"
    using run2' c2 by simp
  also have "\<dots> = (attendance_files st)(attendance_filename now2 \<mapsto> rows2)"
    using st1 same_day by (cases c1) simp_all
  also have "\<dots> = attendance_files (fst (mark_attendance imread detect set_iter st img2 now2))"
    using e2 [of st, OF kf [symmetric]] c2 by simp
  finally show ?thesis .
qed

lemma mark_attendance_last_run_wins_witness:
  "attendance_files (fst (mark_attendance Some id id
      (fst (mark_attendance Some id id
         \<lparr>known_faces = [(''Alice_1.jpg'', [[1, 0]]), (''Bob_2.jpg'', [[0, 1 :: real]])],
          attendance_files = Map.empty\<rparr> [[1, 0]]
         \<lparr>year = 2024, month = 5, day = 7, hour = 9, minute = 5, second = 3\<rparr>))
      [[0, 1]] \<lparr>year = 2024, month = 5, day = 7, hour = 14, minute = 0, second = 0\<rparr>))
   = attendance_files (fst (mark_attendance Some id id
         \<lparr>known_faces = [(''Alice_1.jpg'', [[1, 0]]), (''Bob_2.jpg'', [[0, 1 :: real]])],
          attendance_files = Map.empty\<rparr>
      [[0, 1]] \<lparr>year = 2024, month = 5, day = 7, hour = 14, minute = 0, second = 0\<rparr>))"
proof -
  let ?st = "\<lparr>known_faces = [(''Alice_1.jpg'', [[1, 0]]), (''Bob_2.jpg'', [[0, 1 :: real]])],
         attendance_files = Map.empty\<rparr>"
  let ?now1 = "\<lparr>year = 2024, month = 5, day = 7, hour = 9, minute = 5, second = 3\<rparr>"
  let ?now2 = "\<lparr>year = 2024, month = 5, day = 7, hour = 14, minute = 0, second = 0\<rparr>"
  let ?R = "([[1, 0], [0, 1 :: real]], [(''Alice'', ''1''), (''Bob'', ''2'')])"
  let ?st1 = "fst (mark_attendance Some id id ?st [[1, 0]] ?now1)"
  have l: "load_known_faces Some id (known_faces ?st) = Inr ?R" using demo_load by simp
  have ms: "map_py (match_face ?R) (id [[1, 0]]) = Inr [Some (''Alice'', ''1'')]"
    "map_py (match_face ?R) (id [[0, 1]]) = Inr [Some (''Bob'', ''2'')]"
    using demo_match by simp_all
  have run1: "mark_attendance Some id id ?st [[1, 0]] ?now1 =
      (?st1, fst (snd (mark_attendance Some id id ?st [[1, 0]] ?now1)), snd (snd (mark_attendance Some id id ?st [[1, 0]] ?now1)))"
    by simp
  have kf: "known_faces ?st1 = known_faces ?st"
    by (subst mark_attendance_ok [OF l ms(1) iter_id]) simp
  have l1: "load_known_faces Some id (known_faces ?st1) = Inr ?R" using l kf by simp
  have "snd (snd (mark_attendance Some id id ?st1 [[0, 1]] ?now2)) = Inr 1"
    by (subst mark_attendance_ok [OF l1 ms(2) iter_id]) (simp add: add_match_def)
  then have run2: "mark_attendance Some id id ?st1 [[0, 1]] ?now2 =
      (fst (mark_attendance Some id id ?st1 [[0, 1]] ?now2), fst (snd (mark_attendance Some id id ?st1 [[0, 1]] ?now2)), Inr 1)"
    by (rule triple_eta)
  have same: "attendance_filename ?now1 = attendance_filename ?now2"
    by (simp add: attendance_filename_def date_str_def)
  show ?thesis
    by (rule mark_attendance_last_run_wins [OF run1 run2 same])
qed

text \<open>C17. When the rolls of the roster are pairwise distinct as numbers, the file written does
  not depend on the order in which Python iterates the set of recognised students.\<close>

theorem mark_attendance_iteration_order:
  assumes load: "load_known_faces imread detect (known_faces st) = Inr R"
    and inj: "inj_on roll_int (set (snd R))"
    and it1: "\<forall>xs. mset (it1 xs) = mset xs" and it2: "\<forall>xs. mset (it2 xs) = mset xs"
  shows "mark_attendance imread detect it1 st img now = mark_attendance imread detect it2 st img now"
proof (cases "map_py (match_face R) (detect img)")
  case (Inl e)
  then obtain ps where "recognize_loop R (length (detect img)) 0 (detect img) [] = (ps, Inl e)"
    using recognize_loop_error by blast
  with load show ?thesis by (simp add: mark_attendance_def)
next
  case (Inr ms)
  let ?rec = "fold add_match ms []"
  have len: "length (snd R) = length (fst R)"
    using loaded_roster_wf [OF load] by (simp add: roster_wf_def)
  have sub: "set ?rec \<subseteq> set (snd R)"
    using matched_set [OF Inr] match_face_in_roster [OF len] by (auto simp: set_fold_add_match)
  have m1: "mset (it1 ?rec) = mset ?rec" and m2: "mset (it2 ?rec) = mset ?rec"
    using it1 it2 by simp_all
  have "set_mset (mset (it1 ?rec)) = set_mset (mset ?rec)" using m1 by (rule arg_cong)
  then have "set (it1 ?rec) \<subseteq> set (snd R)" using sub by simp
  then have inj1: "inj_on roll_int (set (it1 ?rec))" by (rule inj_on_subset [OF inj])
  have "sort_key roll_int (it1 ?rec) = sort_key roll_int (it2 ?rec)"
  proof (rule sort_key_inj_key_eq)
    show "mset (it1 ?rec) = mset (sort_key roll_int (it2 ?rec))" using m1 m2 by simp
    show "inj_on roll_int (set (it1 ?rec))" by (rule inj1)
    show "sorted (map roll_int (sort_key roll_int (it2 ?rec)))" by simp
  qed
  then show ?thesis
    using mark_attendance_ok [OF load Inr it1, of now] mark_attendance_ok [OF load Inr it2, of now]
    by simp
qed

lemma mark_attendance_iteration_order_witness:
  "mark_attendance Some id id
      \<lparr>known_faces = [(''Alice_1.jpg'', [[1, 0]]), (''Bob_2.jpg'', [[0, 1 :: real]])],
       attendance_files = Map.empty\<rparr> [[1, 0], [0, 1]]
      \<lparr>year = 2024, month = 5, day = 7, hour = 9, minute = 5, second = 3\<rparr>
   = mark_attendance Some id rev
      \<lparr>known_faces = [(''Alice_1.jpg'', [[1, 0]]), (''Bob_2.jpg'', [[0, 1 :: real]])],
       attendance_files = Map.empty\<rparr> [[1, 0], [0, 1]]
      \<lparr>year = 2024, month = 5, day = 7, hour = 9, minute = 5, second = 3\<rparr>"
proof -
  have l: "load_known_faces Some id (known_faces \<lparr>known_faces = [(''Alice_1.jpg'', [[1, 0]]), (''Bob_2.jpg'', [[0, 1 :: real]])],
       attendance_files = Map.empty\<rparr>) = Inr ([[1, 0], [0, 1]], [(''Alice'', ''1''), (''Bob'', ''2'')])"
    using demo_load by simp
  have inj: "inj_on roll_int (set (snd ([[1, 0], [0, 1 :: real]], [(''Alice'', ''1''), (''Bob'', ''2'')])))"
    using demo_rolls by simp
  show ?thesis
    by (rule mark_attendance_iteration_order [OF l inj iter_id iter_rev])
qed

text \<open>C18. When two recognised students have rolls that are equal as numbers (such as
  \<open>1\<close> and \<open>01\<close>), the order of their rows follows the order in which Python iterates
  the set of recognised students: iterating it in one order or in the reverse order
  writes two different files.\<close>

theorem mark_attendance_equal_rolls_order:
  assumes load: "load_known_faces imread detect (known_faces st) = Inr R"
    and dims: "\<forall>f\<in>set (detect img). \<forall>k\<in>set (fst R). length k = length f"
    and m1: "f1 \<in> set (detect img)" "match_face R f1 = Inr (Some d1)"
    and m2: "f2 \<in> set (detect img)" "match_face R f2 = Inr (Some d2)"
    and diff: "d1 \<noteq> d2" and same: "roll_int d1 = roll_int d2"
  shows "attendance_files (fst (mark_attendance imread detect id st img now)) (attendance_filename now)
       \<noteq> attendance_files (fst (mark_attendance imread detect rev st img now)) (attendance_filename now)"
proof -
  have len: "length (snd R) = length (fst R)"
    using loaded_roster_wf [OF load] by (simp add: roster_wf_def)
  have "\<forall>f\<in>set (detect img). match_face R f = Inr (match_spec R f)"
    using dims match_face_spec [OF _ len] by blast
  then have ms: "map_py (match_face R) (detect img) = Inr (map (match_spec R) (detect img))"
    by (simp add: map_py_Inr_iff)
  let ?rec = "fold add_match (map (match_spec R) (detect img)) []"
  let ?row = "\<lambda>(name, roll). [name :: string, roll, date_str now, time_str now]"
  have set_rec: "set ?rec = {d. \<exists>f\<in>set (detect img). match_face R f = Inr (Some d)}"
    using matched_set [OF ms] by (simp add: set_fold_add_match)
  have "d1 \<in> set ?rec" "d2 \<in> set ?rec" using set_rec m1 m2 by auto
  with diff same have "sort_key roll_int (rev ?rec) \<noteq> sort_key roll_int ?rec"
    by (intro sort_key_rev_neq [where x = d1 and y = d2]) (simp_all add: distinct_fold_add_match)
  moreover have "inj ?row" by (auto simp: inj_def)
  ultimately have "map ?row (sort_key roll_int ?rec) \<noteq> map ?row (sort_key roll_int (rev ?rec))"
    by (simp add: inj_map_eq_map)
  then show ?thesis
    by (subst mark_attendance_ok [OF load ms iter_id], subst mark_attendance_ok [OF load ms iter_rev]) simp
qed

lemma mark_attendance_equal_rolls_order_witness:
  "attendance_files (fst (mark_attendance Some id id
      \<lparr>known_faces = [(''Alice_1.jpg'', [[1, 0]]), (''Bob_01.jpg'', [[0, 1 :: real]])],
       attendance_files = Map.empty\<rparr> [[1, 0], [0, 1]]
      \<lparr>year = 2024, month = 5, day = 7, hour = 9, minute = 5, second = 3\<rparr>))
      (attendance_filename \<lparr>year = 2024, month = 5, day = 7, hour = 9, minute = 5, second = 3\<rparr>)
   \<noteq> attendance_files (fst (mark_attendance Some id rev
      \<lparr>known_faces = [(''Alice_1.jpg'', [[1, 0]]), (''Bob_01.jpg'', [[0, 1 :: real]])],
       attendance_files = Map.empty\<rparr> [[1, 0], [0, 1]]
      \<lparr>year = 2024, month = 5, day = 7, hour = 9, minute = 5, second = 3\<rparr>))
      (attendance_filename \<lparr>year = 2024, month = 5, day = 7, hour = 9, minute = 5, second = 3\<rparr>)"
proof -
  let ?R = "([[1, 0], [0, 1 :: real]], [(''Alice'', ''1''), (''Bob'', ''01'')])"
  have l: "load_known_faces Some id (known_faces \<lparr>known_faces = [(''Alice_1.jpg'', [[1, 0]]), (''Bob_01.jpg'', [[0, 1 :: real]])],
       attendance_files = Map.empty\<rparr>) = Inr ?R"
  proof -
    have "load_known_faces Some id [(''Alice_1.jpg'', [[1, 0]]), (''Bob_01.jpg'', [[0, 1 :: real]])] = Inr ?R"
      by code_simp
    then show ?thesis by simp
  qed
  have m1: "match_face ?R [1, 0] = Inr (Some (''Alice'', ''1''))"
    by (simp add: match_face_def cosine_similarity_def cos_sim_def vec_norm_def dot_def
        match_threshold_def py_get_def)
  have m2: "match_face ?R [0, 1] = Inr (Some (''Bob'', ''01''))"
    by (simp add: match_face_def cosine_similarity_def cos_sim_def vec_norm_def dot_def
        match_threshold_def py_get_def)
  have same: "roll_int (''Alice'', ''1'') = roll_int (''Bob'', ''01'')"
    by (simp add: roll_int_def) code_simp
  show ?thesis
    by (rule mark_attendance_equal_rolls_order [OF l _ _ m1 _ m2 _ same]) simp_all
qed

text \<open>C30. The attendance file name determines the date: two runs write the same file exactly
  when their year, month and day agree.\<close>

theorem attendance_filename_eq_iff:
  "attendance_filename a = attendance_filename b \<longleftrightarrow>
     year a = year b \<and> month a = month b \<and> day a = day b"
proof
  assume "attendance_filename a = attendance_filename b"
  then have "date_str a = date_str b" by (simp add: attendance_filename_def)
  then have "map py_int (split_on CHR ''-'' (date_str a)) = map py_int (split_on CHR ''-'' (date_str b))"
    by simp
  then show "year a = year b \<and> month a = month b \<and> day a = day b"
    by (simp only: date_str_parse list.inject option.inject of_nat_eq_iff)
next
  assume "year a = year b \<and> month a = month b \<and> day a = day b"
  then show "attendance_filename a = attendance_filename b"
    by (simp add: attendance_filename_def date_str_def)
qed

lemma attendance_filename_eq_iff_witness:
  "attendance_filename \<lparr>year = 2024, month = 5, day = 7, hour = 9, minute = 0, second = 0\<rparr>
   \<noteq> attendance_filename \<lparr>year = 2024, month = 5, day = 8, hour = 9, minute = 0, second = 0\<rparr>"
  using attendance_filename_eq_iff by simp

end
