(* ===== verification/Gui.thy ===== *)
theory Gui
  imports Session
begin

text \<open>
  The Tk front end of \<open>main.py\<close> (lines 83--134, 137--219): the two button handlers
  \<open>browse_image\<close> (upload a class photo and mark attendance) and \<open>add_face\<close> (enrol a
  student), the shared \<open>reset_gui\<close>, and the event loop that runs a handler when an
  enabled button is clicked. The model runs one handler at a time to completion, so a
  session of the program is a sequence of handler runs; \<open>gui_step\<close> is one such run and
  \<open>reachable\<close> the states a session can reach from start-up (\<open>root.mainloop()\<close>,
  line 221). Tk can do more: \<open>root.update()\<close> inside \<open>add_face\<close> (line 110) processes
  pending events while both buttons are still enabled, so a click during the ten progress
  steps starts a second handler inside the first. Such nested runs are not modelled.
  (\<open>progress_bar.update()\<close> in \<open>mark_attendance\<close> also processes events, but
  \<open>browse_image\<close> has disabled both buttons by then.)

  The widgets are the fields of \<open>gui\<close>: the photo on \<open>image_label\<close> (by its path), the
  progress bar's value and the values it has been set to, the label text, the two
  buttons' states, the message boxes shown so far, and the two directories. The dialogs'
  answers (\<open>askstring\<close>, \<open>askopenfilename\<close>, the clock) are the arguments of a step; the
  image libraries and the face model are the fields of \<open>env\<close>: PIL's open, OpenCV's
  \<open>imread\<close> on a path chosen in a dialog and on a stored file, OpenCV's JPEG encoding, the
  face model, and Python's set iteration order.
\<close>

datatype message =
    Attendance_marked nat
  | Image_failed
  | Face_added string string
  | Missing_input

record ('img, 'file) env =
  env_detect :: "'img \<Rightarrow> embedding list"
  env_set_iter :: "identity list \<Rightarrow> identity list"
  pil_open :: "string \<Rightarrow> bool"
  cv_imread :: "string \<Rightarrow> 'img option"
  file_imread :: "'file \<Rightarrow> 'img option"
  jpeg_encode :: "'img \<Rightarrow> 'file"

record 'file gui =
  image_label :: "string option"
  progress :: real
  progress_log :: "real list"
  label_text :: string
  upload_enabled :: bool
  add_face_enabled :: bool
  messages :: "message list"
  dirs :: "'file store"

subsection \<open>Start-up and \<open>reset_gui\<close>\<close>

text \<open>The window as built (lines 148--163 and 201--219): both buttons enabled, no photo,
  empty bar, the initial label.\<close>

definition initial_label :: string where
  "initial_label = ''Upload class photo for attendance''"

definition gui_init :: "'file store \<Rightarrow> 'file gui" where
  "gui_init st = \<lparr>image_label = None, progress = 0, progress_log = [], label_text = initial_label,
     upload_enabled = True, add_face_enabled = True, messages = [], dirs = st\<rparr>"

text \<open>\<open>progress_bar['value'] = v\<close>.\<close>

definition set_progress :: "'file gui \<Rightarrow> real \<Rightarrow> 'file gui" where
  "set_progress g v = g\<lparr>progress := v, progress_log := progress_log g @ [v]\<rparr>"

definition show_message :: "'file gui \<Rightarrow> message \<Rightarrow> 'file gui" where
  "show_message g m = g\<lparr>messages := messages g @ [m]\<rparr>"

text \<open>Lines 128--134.\<close>

definition reset_gui :: "'file gui \<Rightarrow> 'file gui" where
  "reset_gui g = (set_progress (g\<lparr>image_label := None\<rparr>) 0)\<lparr>label_text := initial_label,
     add_face_enabled := True, upload_enabled := True\<rparr>"

subsection \<open>\<open>browse_image\<close> (lines 170--199)\<close>

text \<open>The body of the \<open>try\<close> (lines 177--197): PIL opens the photo for the preview (an
  unreadable file raises), then \<open>mark_attendance\<close> runs; it reads the photo again with
  OpenCV, whose \<open>None\<close> for an unreadable file makes the face model raise. The
  progress values \<open>mark_attendance\<close> sets are shown in turn; its exception, like PIL's, is
  caught and reported.\<close>

definition browse_try :: "('img, 'file) env \<Rightarrow> 'file gui \<Rightarrow> string \<Rightarrow> datetime \<Rightarrow> 'file gui" where
  "browse_try E g path now =
     (if \<not> pil_open E path then show_message (g\<lparr>image_label := None\<rparr>) Image_failed
      else
        (let g2 = set_progress (g\<lparr>image_label := Some path\<rparr>) 0
         in case cv_imread E path of
              None \<Rightarrow> show_message g2 Image_failed
            | Some img \<Rightarrow>
                (case mark_attendance (file_imread E) (env_detect E) (env_set_iter E) (dirs g2) img now of
                   (st', ps, r) \<Rightarrow>
                     (let g3 = (fold (\<lambda>p h. set_progress h p) ps g2)\<lparr>dirs := st'\<rparr>
                      in case r of
                           Inl e \<Rightarrow> show_message g3 Image_failed
                         | Inr n \<Rightarrow> show_message g3 (Attendance_marked n)))))"

text \<open>Both buttons are disabled first (lines 171--172). The \<open>try ... finally reset_gui()\<close>
  sits inside \<open>if file_path:\<close>, so a cancelled file dialog (the empty path) returns with
  the buttons still disabled.\<close>

definition browse_image :: "('img, 'file) env \<Rightarrow> 'file gui \<Rightarrow> string \<Rightarrow> datetime \<Rightarrow> 'file gui" where
  "browse_image E g path now =
     (let g1 = g\<lparr>upload_enabled := False, add_face_enabled := False\<rparr>
      in if path = [] then g1 else reset_gui (browse_try E g1 path now))"

subsection \<open>\<open>add_face\<close> (lines 83--125)\<close>

text \<open>Python's truth value of what \<open>askstring\<close> returns: \<open>None\<close> when cancelled, the
  empty string when left blank.\<close>

definition py_truthy :: "string option \<Rightarrow> bool" where
  "py_truthy s = (case s of None \<Rightarrow> False | Some x \<Rightarrow> x \<noteq> [])"

text \<open>Lines 104--111: the bar is set to 0, then to 10, 20, ..., 100.\<close>

definition enroll_progress :: "real list" where
  "enroll_progress = 0 # map (\<lambda>i. real i * 10) [1..<11]"

text \<open>The body of the \<open>try\<close> (lines 91--119). Line 116 decodes the chosen file with
  \<open>cv2.imread\<close>; \<open>cv2.imwrite\<close> (line 117) raises on the \<open>None\<close> it returns for an
  unreadable file, and otherwise stores the JPEG encoding of the decoded image through
  \<open>save_known_face\<close> (reporting nothing when the path leaves the directory).\<close>

definition add_face_try :: "('img, 'file) env \<Rightarrow> 'file gui \<Rightarrow> string \<Rightarrow> string \<Rightarrow> string \<Rightarrow> 'file gui" where
  "add_face_try E g name roll path =
     (if \<not> pil_open E path then show_message (g\<lparr>image_label := None\<rparr>) Image_failed
      else
        (let g2 = fold (\<lambda>p h. set_progress h p) enroll_progress (g\<lparr>image_label := Some path\<rparr>)
         in case cv_imread E path of
              None \<Rightarrow> show_message g2 Image_failed
            | Some img \<Rightarrow>
                show_message (g2\<lparr>dirs := (dirs g2)\<lparr>known_faces :=
                    save_known_face (jpeg_encode E) (known_faces (dirs g2)) (enroll_filename name roll) img\<rparr>\<rparr>)
                  (Face_added name roll)))"

definition add_face :: "('img, 'file) env \<Rightarrow> 'file gui \<Rightarrow> string option \<Rightarrow> string option \<Rightarrow> string \<Rightarrow> 'file gui" where
  "add_face E g name roll path =
     (case (name, roll) of
        (Some n, Some r) \<Rightarrow>
          if n \<noteq> [] \<and> r \<noteq> [] then
            (if path = [] then g else reset_gui (add_face_try E g n r path))
          else show_message g Missing_input
      | _ \<Rightarrow> show_message g Missing_input)"

subsection \<open>The event loop\<close>

text \<open>One handler run: a click on an enabled button, with the dialogs' answers and the
  clock as the arguments. A disabled Tk button ignores clicks. Runs are atomic here; the
  nesting that \<open>root.update()\<close> allows inside \<open>add_face\<close> is left out.\<close>

inductive gui_step :: "('img, 'file) env \<Rightarrow> 'file gui \<Rightarrow> 'file gui \<Rightarrow> bool" for E where
  upload: "upload_enabled g \<Longrightarrow> gui_step E g (browse_image E g path now)"
| add: "add_face_enabled g \<Longrightarrow> gui_step E g (add_face E g name roll path)"

inductive reachable :: "('img, 'file) env \<Rightarrow> 'file store \<Rightarrow> 'file gui \<Rightarrow> bool" for E st where
  init: "reachable E st (gui_init st)"
| step: "reachable E st g \<Longrightarrow> gui_step E g g' \<Longrightarrow> reachable E st g'"

text \<open>The state a user sees as idle: both buttons as one, and when they are enabled the
  window as \<open>reset_gui\<close> leaves it.\<close>

definition gui_inv :: "'file gui \<Rightarrow> bool" where
  "gui_inv g \<longleftrightarrow> upload_enabled g = add_face_enabled g
     \<and> (upload_enabled g \<longrightarrow> progress g = 0 \<and> image_label g = None \<and> label_text g = initial_label)"

text \<open>The environment of the concrete sessions below: the identity face model on images
  that are lists of embeddings, and every file readable.\<close>

definition demo_env :: "(real list list, real list list) env" where
  "demo_env = \<lparr>env_detect = id, env_set_iter = id, pil_open = \<lambda>p. True,
          cv_imread = \<lambda>p. Some (if p = ''b.jpg'' then [[0, 1]] else [[1, 0]]),
          file_imread = Some, jpeg_encode = id\<rparr>"

inductive_cases gui_stepE: "gui_step E g g'"

subsection \<open>Handler lemmas\<close>


lemma fold_set_progress:
  "fold (\<lambda>p h. set_progress h p) ps g =
     g\<lparr>progress := last (progress g # ps), progress_log := progress_log g @ ps\<rparr>"
  by (induction ps arbitrary: g) (simp_all add: set_progress_def)

lemma set_progress_fields [simp]:
  "upload_enabled (set_progress g v) = upload_enabled g"
  "add_face_enabled (set_progress g v) = add_face_enabled g"
  "dirs (set_progress g v) = dirs g" "messages (set_progress g v) = messages g"
  "image_label (set_progress g v) = image_label g" "label_text (set_progress g v) = label_text g"
  "progress (set_progress g v) = v" "progress_log (set_progress g v) = progress_log g @ [v]"
  by (simp_all add: set_progress_def)

lemmas gui_defs = show_message_def fold_set_progress

lemma reset_gui_idle [simp]:
  "upload_enabled (reset_gui g)" "add_face_enabled (reset_gui g)" "progress (reset_gui g) = 0"
  "image_label (reset_gui g) = None" "label_text (reset_gui g) = initial_label"
  "dirs (reset_gui g) = dirs g" "messages (reset_gui g) = messages g"
  "progress_log (reset_gui g) = progress_log g @ [0]"
  by (simp_all add: reset_gui_def set_progress_def)

lemma browse_try_frame:
  "upload_enabled (browse_try E g path now) = upload_enabled g"
  "add_face_enabled (browse_try E g path now) = add_face_enabled g"
  by (auto simp: browse_try_def Let_def gui_defs split: option.splits prod.splits sum.splits)

lemma add_face_try_frame:
  "upload_enabled (add_face_try E g n r path) = upload_enabled g"
  "add_face_enabled (add_face_try E g n r path) = add_face_enabled g"
  "attendance_files (dirs (add_face_try E g n r path)) = attendance_files (dirs g)"
  by (auto simp: add_face_try_def Let_def gui_defs split: option.splits)

lemma browse_image_cases:
  "browse_image E g path now =
     (if path = [] then g\<lparr>upload_enabled := False, add_face_enabled := False\<rparr>
      else reset_gui (browse_try E (g\<lparr>upload_enabled := False, add_face_enabled := False\<rparr>) path now))"
  by (simp add: browse_image_def Let_def)

lemma add_face_cases:
  "add_face E g name roll path =
     (if py_truthy name \<and> py_truthy roll then
        (if path = [] then g else reset_gui (add_face_try E g (the name) (the roll) path))
      else show_message g Missing_input)"
  by (auto simp: add_face_def py_truthy_def split: option.splits)

lemma gui_step_cases:
  assumes "gui_step E g g'"
  obtains path now where "upload_enabled g" "g' = browse_image E g path now"
  | name roll path where "add_face_enabled g" "g' = add_face E g name roll path"
  using assms by (auto elim: gui_stepE)

lemma gui_inv_init: "gui_inv (gui_init st)"
  by (simp add: gui_inv_def gui_init_def)

lemma gui_inv_step: "gui_inv g \<Longrightarrow> gui_step E g g' \<Longrightarrow> gui_inv g'"
  by (erule gui_step_cases)
    (auto simp: gui_inv_def browse_image_cases add_face_cases show_message_def)

lemma reachable_inv: "reachable E st g \<Longrightarrow> gui_inv g"
  by (induction rule: reachable.induct) (auto intro: gui_inv_init gui_inv_step)

lemma mark_attendance_dirs:
  assumes "mark_attendance imread detect set_iter st img now = (st', ps, r)"
  shows "known_faces st' = known_faces st \<and> (attendance_files st' = attendance_files st
    \<or> (\<exists>rows. attendance_files st' = (attendance_files st)(attendance_filename now \<mapsto> rows)))"
proof -
  obtain c ps' r' where e: "\<And>st0. known_faces st0 = known_faces st \<Longrightarrow> mark_attendance imread detect set_iter st0 img now =
       (case c of None \<Rightarrow> st0
        | Some rows \<Rightarrow> st0\<lparr>attendance_files := (attendance_files st0)(attendance_filename now \<mapsto> rows)\<rparr>, ps', r')"
    and "(\<exists>n. r' = Inr n) \<Longrightarrow> c \<noteq> None"
    by (rule mark_attendance_effect [where st = st and imread = imread and detect = detect and set_iter = set_iter
      and img = img and now = now]) blast
  from e [of st] assms have "st' = (case c of None \<Rightarrow> st
        | Some rows \<Rightarrow> st\<lparr>attendance_files := (attendance_files st)(attendance_filename now \<mapsto> rows)\<rparr>)"
    by simp
  then show ?thesis by (cases c) auto
qed

lemma browse_try_dirs:
  "known_faces (dirs (browse_try E g path now)) = known_faces (dirs g)
   \<and> (attendance_files (dirs (browse_try E g path now)) = attendance_files (dirs g)
      \<or> (\<exists>rows. attendance_files (dirs (browse_try E g path now)) =
                 (attendance_files (dirs g))(attendance_filename now \<mapsto> rows)))"
proof (cases "pil_open E path \<and> (\<exists>img. cv_imread E path = Some img)")
  case False
  then show ?thesis by (auto simp: browse_try_def Let_def gui_defs split: option.splits)
next
  case True
  then obtain img where p: "pil_open E path" and img: "cv_imread E path = Some img" by blast
  obtain st' ps r where run: "mark_attendance (file_imread E) (env_detect E) (env_set_iter E) (dirs g) img now = (st', ps, r)"
    by (metis prod.exhaust)
  have "dirs (browse_try E g path now) = st'"
    using p img run by (simp add: browse_try_def Let_def gui_defs split: sum.splits)
  with mark_attendance_dirs [OF run] show ?thesis by simp
qed

lemma add_face_saves:
  assumes "n \<noteq> []" "r \<noteq> []" "path \<noteq> []" "pil_open E path" "cv_imread E path = Some img"
  shows "dirs (add_face E g (Some n) (Some r) path) =
    (dirs g)\<lparr>known_faces := save_known_face (jpeg_encode E) (known_faces (dirs g)) (enroll_filename n r) img\<rparr>"
  using assms by (simp add: add_face_def add_face_try_def Let_def gui_defs)

lemma py_int_Nil: "py_int [] = None" by code_simp

lemma enroll_ok_nonempty: "enroll_ok name roll \<Longrightarrow> roll \<noteq> []"
  using py_int_Nil by (auto simp: enroll_ok_def)

lemma add_face_step:
  assumes "add_face_enabled g" "n \<noteq> []" "r \<noteq> []" "path \<noteq> []" "pil_open E path" "cv_imread E path = Some img"
  shows "gui_step E g (add_face E g (Some n) (Some r) path)
    \<and> upload_enabled (add_face E g (Some n) (Some r) path)
    \<and> add_face_enabled (add_face E g (Some n) (Some r) path)"
proof -
  have "gui_step E g (add_face E g (Some n) (Some r) path)" using assms(1) by (rule gui_step.add)
  with assms show ?thesis by (simp add: add_face_cases py_truthy_def)
qed

lemma demo_env_simps [simp]:
  "env_detect demo_env = id" "env_set_iter demo_env = id" "pil_open demo_env p"
  "cv_imread demo_env p = Some (if p = ''b.jpg'' then [[0, 1]] else [[1, 0]])"
  "file_imread demo_env = Some" "jpeg_encode demo_env = id"
  by (simp_all add: demo_env_def)

subsection \<open>Properties of the front end\<close>


text \<open>C4. Cancelling the file dialog of "Upload Photo" deadlocks the program: from any
  reachable state with the buttons enabled, the click leads to a reachable state in which
  both buttons are disabled and no handler can ever run again (the \<open>finally: reset_gui()\<close>
  is inside \<open>if file_path:\<close>).\<close>

theorem gui_cancel_deadlock:
  assumes "reachable E st g" and "upload_enabled g"
  shows "reachable E st (browse_image E g [] now) \<and> (\<forall>g'. \<not> gui_step E (browse_image E g [] now) g')"
proof
  show "reachable E st (browse_image E g [] now)"
    using assms by (blast intro: reachable.step gui_step.upload)
  show "\<forall>g'. \<not> gui_step E (browse_image E g [] now) g'"
    by (auto elim: gui_step_cases simp: browse_image_cases)
qed

lemma gui_cancel_deadlock_witness:
  "reachable demo_env \<lparr>known_faces = [], attendance_files = Map.empty\<rparr>
     (browse_image demo_env (gui_init \<lparr>known_faces = [], attendance_files = Map.empty\<rparr>) []
       \<lparr>year = 2024, month = 5, day = 7, hour = 9, minute = 5, second = 3\<rparr>)
   \<and> (\<forall>g'. \<not> gui_step demo_env (browse_image demo_env (gui_init \<lparr>known_faces = [], attendance_files = Map.empty\<rparr>) []
       \<lparr>year = 2024, month = 5, day = 7, hour = 9, minute = 5, second = 3\<rparr>) g')"
  by (rule gui_cancel_deadlock [OF reachable.init]) (simp add: gui_init_def)

text \<open>C8. In every reachable state the two buttons are both enabled or both disabled, and
  when enabled the window is idle: progress 0, no photo, the initial label.\<close>

theorem gui_invariant:
  "reachable E st g \<Longrightarrow> upload_enabled g = add_face_enabled g
     \<and> (upload_enabled g \<longrightarrow> progress g = 0 \<and> image_label g = None \<and> label_text g = initial_label)"
  using reachable_inv by (simp add: gui_inv_def)

lemma gui_invariant_witness:
  "upload_enabled (browse_image demo_env (gui_init \<lparr>known_faces = [], attendance_files = Map.empty\<rparr>) []
      \<lparr>year = 2024, month = 5, day = 7, hour = 9, minute = 5, second = 3\<rparr>)
   = add_face_enabled (browse_image demo_env (gui_init \<lparr>known_faces = [], attendance_files = Map.empty\<rparr>) []
      \<lparr>year = 2024, month = 5, day = 7, hour = 9, minute = 5, second = 3\<rparr>)"
proof -
  have "reachable demo_env \<lparr>known_faces = [], attendance_files = Map.empty\<rparr>
     (browse_image demo_env (gui_init \<lparr>known_faces = [], attendance_files = Map.empty\<rparr>) []
      \<lparr>year = 2024, month = 5, day = 7, hour = 9, minute = 5, second = 3\<rparr>)"
    by (rule reachable.step [OF reachable.init gui_step.upload]) (simp add: gui_init_def)
  then show ?thesis using gui_invariant by blast
qed

text \<open>C22. The cancelled upload dialog is the only way to lose the buttons: every reachable
  state with the buttons disabled is a cancelled "Upload Photo" click from a reachable state
  with them enabled.\<close>

theorem gui_disabled_only_by_cancel:
  assumes "reachable E st g" and "\<not> upload_enabled g"
  shows "\<exists>g0 now. reachable E st g0 \<and> upload_enabled g0 \<and> g = browse_image E g0 [] now"
  using assms
proof (induction rule: reachable.induct)
  case init
  then show ?case by (simp add: gui_init_def)
next
  case (step g g')
  have inv: "gui_inv g" using step.hyps(1) by (rule reachable_inv)
  from step.hyps(2) show ?case
  proof (cases rule: gui_step_cases)
    case (1 path now)
    then show ?thesis using step.hyps(1) step.prems
      by (cases "path = []") (auto simp: browse_image_cases)
  next
    case (2 name roll path)
    with inv have "upload_enabled g" by (simp add: gui_inv_def)
    with 2 step.prems show ?thesis by (auto simp: add_face_cases show_message_def split: if_splits)
  qed
qed

lemma gui_disabled_only_by_cancel_witness:
  "\<exists>g0 now. reachable demo_env \<lparr>known_faces = [], attendance_files = Map.empty\<rparr> g0 \<and> upload_enabled g0
     \<and> browse_image demo_env (gui_init \<lparr>known_faces = [], attendance_files = Map.empty\<rparr>) []
         \<lparr>year = 2024, month = 5, day = 7, hour = 9, minute = 5, second = 3\<rparr>
       = browse_image demo_env g0 [] now"
proof (rule gui_disabled_only_by_cancel)
  show "reachable demo_env \<lparr>known_faces = [], attendance_files = Map.empty\<rparr>
     (browse_image demo_env (gui_init \<lparr>known_faces = [], attendance_files = Map.empty\<rparr>) []
       \<lparr>year = 2024, month = 5, day = 7, hour = 9, minute = 5, second = 3\<rparr>)"
    by (rule reachable.step [OF reachable.init gui_step.upload]) (simp add: gui_init_def)
  show "\<not> upload_enabled (browse_image demo_env (gui_init \<lparr>known_faces = [], attendance_files = Map.empty\<rparr>) []
       \<lparr>year = 2024, month = 5, day = 7, hour = 9, minute = 5, second = 3\<rparr>)"
    by (simp add: browse_image_def)
qed

text \<open>C12. One handler run changes the directories in at most two ways: the roster gains or
  overwrites the one file \<open>name_roll.jpg\<close>, and the attendance directory gains or
  overwrites the one file of a date.\<close>

theorem gui_step_dirs:
  assumes "gui_step E g g'"
  shows "(known_faces (dirs g') = known_faces (dirs g)
          \<or> (\<exists>n r img. known_faces (dirs g') = save_known_face (jpeg_encode E) (known_faces (dirs g)) (enroll_filename n r) img))
       \<and> (attendance_files (dirs g') = attendance_files (dirs g)
          \<or> (\<exists>now rows. attendance_files (dirs g') = (attendance_files (dirs g))(attendance_filename now \<mapsto> rows)))"
  using assms
proof (cases rule: gui_step_cases)
  case (1 path now)
  then show ?thesis
    using browse_try_dirs [of E "g\<lparr>upload_enabled := False, add_face_enabled := False\<rparr>" path now]
    by (auto simp: browse_image_cases)
next
  case (2 name roll path)
  then show ?thesis
    by (auto simp: add_face_def add_face_try_def Let_def gui_defs split: option.splits)
qed

lemma gui_step_dirs_witness:
  "(known_faces (dirs (add_face demo_env (gui_init \<lparr>known_faces = [], attendance_files = Map.empty\<rparr>)
        (Some ''Alice'') (Some ''1'') ''a.jpg'')) = []
    \<or> (\<exists>n r img. known_faces (dirs (add_face demo_env (gui_init \<lparr>known_faces = [], attendance_files = Map.empty\<rparr>)
        (Some ''Alice'') (Some ''1'') ''a.jpg'')) = save_known_face id [] (enroll_filename n r) img))
   \<and> (attendance_files (dirs (add_face demo_env (gui_init \<lparr>known_faces = [], attendance_files = Map.empty\<rparr>)
        (Some ''Alice'') (Some ''1'') ''a.jpg'')) = Map.empty
    \<or> (\<exists>now rows. attendance_files (dirs (add_face demo_env (gui_init \<lparr>known_faces = [], attendance_files = Map.empty\<rparr>)
        (Some ''Alice'') (Some ''1'') ''a.jpg'')) = Map.empty(attendance_filename now \<mapsto> rows)))"
proof -
  have "gui_step demo_env (gui_init \<lparr>known_faces = [], attendance_files = Map.empty\<rparr>)
      (add_face demo_env (gui_init \<lparr>known_faces = [], attendance_files = Map.empty\<rparr>) (Some ''Alice'') (Some ''1'') ''a.jpg'')"
    by (rule gui_step.add) (simp add: gui_init_def)
  from gui_step_dirs [OF this] show ?thesis by (simp add: gui_init_def)
qed

text \<open>C20. An upload whose photo opens and whose \<open>mark_attendance\<close> returns a count stores the
  directories that \<open>mark_attendance\<close> left, shows "Attendance marked for n student(s)", shows
  the progress values 0, those of the run, then 0, and re-enables both buttons.\<close>

theorem browse_image_marks:
  assumes "path \<noteq> []" "pil_open E path" "cv_imread E path = Some img"
    and "mark_attendance (file_imread E) (env_detect E) (env_set_iter E) (dirs g) img now = (st', ps, Inr n)"
  shows "browse_image E g path now =
    g\<lparr>image_label := None, progress := 0, progress_log := progress_log g @ 0 # ps @ [0],
      label_text := initial_label, upload_enabled := True, add_face_enabled := True,
      messages := messages g @ [Attendance_marked n], dirs := st'\<rparr>"
  using assms
  by (simp add: browse_image_def browse_try_def Let_def gui_defs reset_gui_def)

lemma browse_image_marks_witness:
  "messages (browse_image demo_env
      (gui_init \<lparr>known_faces = [(''Alice_1.jpg'', [[1, 0]]), (''Bob_2.jpg'', [[0, 1]])], attendance_files = Map.empty\<rparr>)
      ''class.jpg'' \<lparr>year = 2024, month = 5, day = 7, hour = 9, minute = 5, second = 3\<rparr>) = [Attendance_marked 1]
   \<and> upload_enabled (browse_image demo_env
      (gui_init \<lparr>known_faces = [(''Alice_1.jpg'', [[1, 0]]), (''Bob_2.jpg'', [[0, 1]])], attendance_files = Map.empty\<rparr>)
      ''class.jpg'' \<lparr>year = 2024, month = 5, day = 7, hour = 9, minute = 5, second = 3\<rparr>)"
proof -
  let ?st = "\<lparr>known_faces = [(''Alice_1.jpg'', [[1, 0]]), (''Bob_2.jpg'', [[0, 1 :: real]])],
         attendance_files = Map.empty\<rparr>"
  let ?now = "\<lparr>year = 2024, month = 5, day = 7, hour = 9, minute = 5, second = 3\<rparr>"
  let ?R = "([[1, 0], [0, 1 :: real]], [(''Alice'', ''1''), (''Bob'', ''2'')])"
  have l: "load_known_faces Some id (known_faces ?st) = Inr ?R" using demo_load by simp
  have ms: "map_py (match_face ?R) (id [[1, 0]]) = Inr [Some (''Alice'', ''1'')]"
    using demo_match by simp
  have "snd (snd (mark_attendance Some id id ?st [[1, 0]] ?now)) = Inr 1"
    by (subst mark_attendance_ok [OF l ms iter_id]) (simp add: add_match_def)
  then have run: "mark_attendance (file_imread demo_env) (env_detect demo_env) (env_set_iter demo_env) (dirs (gui_init ?st)) [[1, 0]] ?now =
      (fst (mark_attendance Some id id ?st [[1, 0]] ?now), fst (snd (mark_attendance Some id id ?st [[1, 0]] ?now)), Inr 1)"
    by (simp add: gui_init_def flip: triple_eta)
  show ?thesis
    using browse_image_marks [OF _ _ _ run] by (simp add: gui_init_def)
qed

text \<open>C21. Enrolling with a non-empty name and roll and a readable image saves the image as
  \<open>name_roll.jpg\<close>, shows the bar at 0, 10, ..., 100 and then 0, reports success, and
  re-enables both buttons.\<close>

theorem add_face_enrolls:
  assumes "n \<noteq> []" "r \<noteq> []" "path \<noteq> []" "pil_open E path" "cv_imread E path = Some img"
  shows "add_face E g (Some n) (Some r) path =
    g\<lparr>image_label := None, progress := 0, progress_log := progress_log g @ enroll_progress @ [0],
      label_text := initial_label, upload_enabled := True, add_face_enabled := True,
      messages := messages g @ [Face_added n r],
      dirs := (dirs g)\<lparr>known_faces := save_known_face (jpeg_encode E) (known_faces (dirs g)) (enroll_filename n r) img\<rparr>\<rparr>"
  using assms
  by (simp add: add_face_def add_face_try_def Let_def gui_defs reset_gui_def)

lemma add_face_enrolls_witness:
  "known_faces (dirs (add_face demo_env (gui_init \<lparr>known_faces = [], attendance_files = Map.empty\<rparr>)
      (Some ''Carol'') (Some ''3'') ''c.jpg'')) = [(''Carol_3.jpg'', [[1, 0]])]
   \<and> messages (add_face demo_env (gui_init \<lparr>known_faces = [], attendance_files = Map.empty\<rparr>)
      (Some ''Carol'') (Some ''3'') ''c.jpg'') = [Face_added ''Carol'' ''3'']"
proof -
  show ?thesis
    using add_face_enrolls [where E = demo_env and img = "[[1, 0]]"]
    by (simp add: gui_init_def save_known_face_def enroll_filename_def)
qed

end
