(* ===== verification/Spec2Isabelle.thy ===== *)
theory Spec2Isabelle
  imports Gui
begin

text \<open>
  \<^bold>\<open>Face-recognition attendance: a verification development.\<close>

  The program (\<open>src/Attendance using python/main.py\<close>) is one Tk window with two
  buttons. "Add New Face" (\<open>add_face\<close>) asks for a name, a roll number and an image,
  decodes the image and writes it as JPEG to \<open>known_faces/<name>_<roll>.jpg\<close>. "Upload Photo"
  (\<open>browse_image\<close>) asks for a class photo and calls \<open>mark_attendance\<close>, which
  \<^item> reloads the roster (\<open>load_known_faces\<close>);
  \<^item> runs the face model on the photo;
  \<^item> matches every detected face against the roster by cosine similarity, with a
    threshold of 0.5;
  \<^item> writes \<open>Attendance/Attendance_<date>.csv\<close> with one row per recognised student,
    sorted by roll.
  Both handlers end in \<open>reset_gui\<close>.

  \<^bold>\<open>Theories, in import order.\<close>
  \<^item> \<open>Prelude\<close>:
    \<^item> Python exceptions as the sum type \<open>'a py = py_error + 'a\<close>, with the
      exception classes the program can raise (ValueError, IndexError, AttributeError);
    \<^item> \<open>map_py\<close>, a loop that stops at the first raise;
    \<^item> \<open>py_get\<close>, list indexing with negative indices and \<open>IndexError\<close>;
    \<^item> \<open>first_index\<close>;
    \<^item> the types \<open>embedding\<close> and \<open>identity\<close>;
    \<^item> stable sorting of a list and of its reverse (\<open>sort_key_rev_neq\<close>).
  \<^item> \<open>PyBuiltins\<close>: the library functions the program calls, written from CPython's
    semantics because they are not code of the repository. These are \<open>str.split\<close>
    (\<open>split_on\<close>), \<open>os.path.splitext\<close>, \<open>str.endswith\<close>, \<open>int()\<close>
    (\<open>py_int\<close>, \<open>py_int_raise\<close>), \<open>str()\<close> (\<open>nat_str\<close>), \<open>zfill\<close>, and
    \<open>sorted(key=)\<close> (\<open>py_sorted_key\<close>, which computes every key first, then sorts
    stably). Lemmas:
    \<^item> split/join round trips;
    \<^item> \<open>int(str(n)) = n\<close>, with and without zero padding;
    \<^item> \<open>py_sorted_key\<close> equals \<open>sort_key\<close> when no key raises.
  \<^item> \<open>Roster\<close>: \<open>load_known_faces\<close> (lines 23--35).
    \<^item> The directory is its listing, a list of (file name, file contents) pairs.
    \<^item> \<open>cv2.imread\<close> of a stored file is a parameter \<open>imread\<close> (\<open>None\<close> for a file
      it cannot decode, on which the face model raises AttributeError); the face model
      is a parameter \<open>detect\<close>; \<open>cv2.imwrite\<close> to a \<open>.jpg\<close> is a parameter
      \<open>jpeg_encode\<close>, unconstrained because JPEG is lossy.
    \<^item> \<open>roster_sort_key\<close> is the key of line 26; \<open>load_loop\<close> is the loop of
      lines 26--34; \<open>unpack_name_roll\<close> is line 33.
    \<^item> The writing half of \<open>add_face\<close> is \<open>enroll_filename\<close> and
      \<open>save_known_face\<close> (lines 113--117).
    \<^item> Invariant: \<open>roster_wf\<close> holds for every loaded roster. It says parallel
      lists, names and rolls without an underscore, rolls \<open>int()\<close> accepts, and
      details sorted by roll.
    \<^item> Lemmas: the round trip enrol-then-load, through the decoded JPEG file; the
      failure modes (a bad name or roll, a bad key, an unreadable image); independence
      from the listing order when rolls are distinct, and the listing order among equal
      rolls; a second name enrolled with the same roll gives two entries of that roll.
  \<^item> \<open>Matcher\<close>: \<open>cosine_similarity\<close> (lines 38--39), with numpy's NaN for a zero
    norm as the datatype \<open>fval\<close>; the scan of lines 52--59 as \<open>best_match_loop\<close>;
    and the threshold decision as \<open>match_face\<close>.
    \<^item> Abstract specification \<open>match_spec\<close>: the first entry of maximal similarity,
      if that similarity exceeds 0.5.
    \<^item> \<open>match_face\<close> refines it when the dimensions agree, and raises
      \<open>ValueError\<close> otherwise.
    \<^item> Cauchy--Schwarz bounds every similarity to \<open>[-1, 1]\<close>.
  \<^item> \<open>Session\<close>: \<open>mark_attendance\<close> (lines 42--80).
    \<^item> State: the record \<open>store\<close> of the two directories. The attendance
      directory maps file names to CSV rows.
    \<^item> The per-face loop is \<open>recognize_loop\<close>. It keeps the set
      \<open>recognized_students\<close> as a duplicate-free list and records the progress values.
    \<^item> Python's set iteration order is a parameter \<open>set_iter\<close>. It is constrained to
      be a permutation wherever a theorem needs that.
    \<^item> \<open>strftime\<close> is \<open>date_str\<close>/\<open>time_str\<close>; the CSV writer is
      \<open>attendance_rows\<close>/\<open>write_attendance\<close>.
    \<^item> Lemmas: the exact output of a run; no raise when dimensions agree; errors
      leave the store unchanged; last run of a day wins; independence from set
      order when rolls are distinct, and dependence on it when two recognised rolls are
      equal as numbers; progress bounds; the file name determines the date.
    \<^item> \<open>%Y\<close> is the year without padding, as glibc prints it.
  \<^item> \<open>Gui\<close>: \<open>reset_gui\<close>, \<open>browse_image\<close> and \<open>add_face\<close> (lines 83--134,
    170--199).
    \<^item> State: the widgets plus the store, as the record \<open>gui\<close>.
    \<^item> The libraries PIL, OpenCV and insightface, and the set iteration order, are
      the record \<open>env\<close>.
    \<^item> The Tk event loop is the inductive relation \<open>gui_step\<close>, one handler run per
      click on an enabled button; \<open>reachable\<close> is its closure from \<open>gui_init\<close>
      (\<open>root.mainloop()\<close>, line 221).
    \<^item> Lemmas by rule induction: the button invariant; the deadlock after a
      cancelled upload dialog, and that it is the only way to lose the buttons; the
      frame of a step on the directories; the effect of each handler.
  \<^item> This theory: the property that spans the front end and the roster. A student
    enrolled through the window is in the roster of the next run, with the first face
    found in the JPEG file written for them.

  \<^bold>\<open>Loops and termination.\<close> Every loop of the program runs over a finite list:
  \<^item> the listing;
  \<^item> the faces;
  \<^item> the roster;
  \<^item> \<open>range(1, 11)\<close>.
  Each is structural recursion (\<open>fun\<close>, \<open>fold\<close>), so every definition is total and
  executable, and no fuel or bound is needed. The Tk main loop does not terminate. It is
  the relation \<open>gui_step\<close>, with properties over all reachable states.

  \<^bold>\<open>Not modelled.\<close>
  \<^item> The insightface model, image decoding and encoding, and thumbnailing are
    parameters (\<open>detect\<close>, \<open>imread\<close>, \<open>jpeg_encode\<close>, \<open>pil_open\<close>, \<open>cv_imread\<close>).
    The class photo handed to \<open>mark_attendance\<close> is already decoded.
  \<^item> float32 rounding is not modelled: similarities are real numbers.
  \<^item> The text of exception messages is not modelled: message boxes are the datatype
    \<open>message\<close>.
  \<^item> Window layout (lines 136--168, 201--219) has no decision logic.
  \<^item> Nested handler runs. \<open>root.update()\<close> in \<open>add_face\<close> (line 110) processes
    pending events while both buttons are enabled, so a click during the progress steps
    runs a second handler inside the first; \<open>gui_step\<close> treats every handler run as
    atomic. \<open>root.after(50)\<close> only waits.
  \<^item> \<open>int()\<close> is modelled on ASCII digits and whitespace; Python also accepts other
    Unicode digits, which no enrolment dialog of this program needs.
  \<^item> A write into a directory that does not exist (a name containing \<open>/\<close>) leaves
    \<open>known_faces\<close> unchanged, as \<open>cv2.imwrite\<close> returns False without raising.
\<close>



end
